theory Spec2Isabelle
  imports Complex_Main "HOL-Library.Multiset"
begin

section \<open>Recursive least squares for the resistor model V = R I + b\<close>

text \<open>
  The development embeds the numerical cells of the notebook
  \<^verbatim>\<open>Recursive Least Squares.ipynb\<close>: the data cell, the batch solution and the
  recursive solution.

  The array operations and the update of the recursive loop are written once, for any
  type of entries with the arithmetic operations. At \<^typ>\<open>real\<close> they are the
  exact-arithmetic semantics of the cells; at the type \<open>f64\<close> defined below they are
  the cells as numpy runs them, on IEEE 754 double precision numbers with rounding,
  overflow, infinities and NaN. The loop around the update, the histories and the batch
  solution are embedded at \<^typ>\<open>real\<close>, and the theorems about them are statements about
  exact arithmetic.
\<close>

subsection \<open>The fragment of numpy used by the notebook\<close>

text \<open>
  A 1-D array is a list of entries, a 2-D array is the list of its rows (row-major, as
  numpy stores it). The array \<^verbatim>\<open>I\<close> is 2-D when the data cell creates it and 1-D once
  the loop has reshaped it, so it gets a type with both shapes.
\<close>

type_synonym vec = "real list"
type_synonym mat = "real list list"

datatype ndarray = Arr1 vec | Arr2 mat

datatype error = LinAlgError | IndexError | ValueError

text \<open>\<^verbatim>\<open>a.shape[0]\<close>, \<^verbatim>\<open>a.ravel()\<close> and \<^verbatim>\<open>a.reshape(n)\<close>: the entries in row-major
  order are kept, and a reshape to a different number of entries raises.\<close>

definition shape0 :: "ndarray \<Rightarrow> nat" where
  "shape0 a = (case a of Arr1 v \<Rightarrow> length v | Arr2 m \<Rightarrow> length m)"

definition ravel :: "ndarray \<Rightarrow> vec" where
  "ravel a = (case a of Arr1 v \<Rightarrow> v | Arr2 m \<Rightarrow> concat m)"

definition reshape1 :: "nat \<Rightarrow> ndarray \<Rightarrow> error + ndarray" where
  "reshape1 n a = (if length (ravel a) = n then Inr (Arr1 (ravel a)) else Inl ValueError)"

text \<open>\<^verbatim>\<open>a[k]\<close> for a non-negative \<^verbatim>\<open>k\<close>: an entry of a 1-D array, a row of a 2-D one.
  An index past the end raises.\<close>

definition item :: "ndarray \<Rightarrow> nat \<Rightarrow> error + real" where
  \<comment> \<open>The scalar \<^verbatim>\<open>a[k]\<close> of a 1-D array. On a 2-D array \<^verbatim>\<open>a[k]\<close> is a row, which
      \<^verbatim>\<open>np.array([[a[k], 1.0]])\<close> cannot hold beside a scalar; the loop reshapes first, so
      that case is never reached.\<close>
  "item a k =
     (case a of
        Arr1 v \<Rightarrow> if k < length v then Inr (v ! k) else Inl IndexError
      | Arr2 m \<Rightarrow> Inl ValueError)"

definition row :: "mat \<Rightarrow> nat \<Rightarrow> error + vec" where
  "row m k = (if k < length m then Inr (m ! k) else Inl IndexError)"

text \<open>\<^verbatim>\<open>m.reshape(2)\<close> and \<^verbatim>\<open>m.reshape(2, 2)\<close> of a 2-D array.\<close>

definition reshape_2 :: "mat \<Rightarrow> error + vec" where
  "reshape_2 m = (if length (concat m) = 2 then Inr (concat m) else Inl ValueError)"

definition reshape_2_2 :: "mat \<Rightarrow> error + mat" where
  "reshape_2_2 m =
     (if length (concat m) = 4 then Inr [take 2 (concat m), drop 2 (concat m)]
      else Inl ValueError)"

text \<open>
  Transpose \<^verbatim>\<open>.T\<close>, the product \<^verbatim>\<open>@\<close>, entrywise \<^verbatim>\<open>+\<close> and \<^verbatim>\<open>-\<close> of arrays of the
  same shape, and \<^verbatim>\<open>np.eye\<close>. The notebook applies them to arrays whose shapes are fixed
  by its own \<^verbatim>\<open>reshape(2, 1)\<close>, \<^verbatim>\<open>reshape(2, 2)\<close> and \<^verbatim>\<open>np.array([[I[k], 1.0]])\<close>, where the
  shapes conform; numpy's shape errors are outside this fragment.
\<close>

fun T :: "'a list list \<Rightarrow> 'a list list" where
  "T [] = []"
| "T [r] = map (\<lambda>a. [a]) r"
| "T (r # rs) = map2 (#) r (T rs)"

definition dot :: "'a::{zero,plus,times} list \<Rightarrow> 'a list \<Rightarrow> 'a" where
  \<comment> \<open>the products accumulated from the left, starting from zero; at \<^typ>\<open>real\<close> the sum
      of the products (lemma \<open>dot_sum_list\<close>)\<close>
  "dot u v = foldl (+) 0 (map2 (*) u v)"

definition matmul :: "'a::{zero,plus,times} list list \<Rightarrow> 'a list list \<Rightarrow> 'a list list" where
  "matmul A B = map (\<lambda>r. map (\<lambda>c. dot r c) (T B)) A"

definition add :: "'a::plus list list \<Rightarrow> 'a list list \<Rightarrow> 'a list list" where
  "add A B = map2 (map2 (+)) A B"

definition sub :: "'a::minus list list \<Rightarrow> 'a list list \<Rightarrow> 'a list list" where
  "sub A B = map2 (map2 (-)) A B"

definition eye :: "nat \<Rightarrow> 'a::{zero,one} list list" where
  "eye n = map (\<lambda>i. map (\<lambda>j. if i = j then 1 else 0) [0..<n]) [0..<n]"

text \<open>\<^verbatim>\<open>v - M\<close> for a 1-D \<^verbatim>\<open>v\<close> and a 2-D \<^verbatim>\<open>M\<close> of the same width: numpy broadcasts
  \<^verbatim>\<open>v\<close> along the rows of \<^verbatim>\<open>M\<close>.\<close>

definition sub_bc :: "'a::minus list \<Rightarrow> 'a list list \<Rightarrow> 'a list list" where
  "sub_bc v M = map (\<lambda>r. map2 (-) v r) M"

text \<open>
  \<^verbatim>\<open>np.linalg.inv\<close> at the two sizes the notebook inverts: a 1 x 1 array (the innovation
  covariance) and a 2 x 2 array (the normal matrix of the batch solution). An exactly
  singular argument raises \<^verbatim>\<open>LinAlgError\<close>, and so does a non-square one; larger
  square arrays do not occur and are not modelled.
\<close>

fun inv_m :: "'a::{zero,one,minus,uminus,times,inverse} list list \<Rightarrow> error + 'a list list" where
  "inv_m [[a]] = (if a = 0 then Inl LinAlgError else Inr [[1 / a]])"
| "inv_m [[a, b], [c, d]] =
     (if a * d - b * c = 0 then Inl LinAlgError
      else Inr [[d / (a * d - b * c), - b / (a * d - b * c)],
                [- c / (a * d - b * c), a / (a * d - b * c)]])"
| "inv_m _ = Inl LinAlgError"

subsection \<open>One pass through the body of the recursive loop\<close>

text \<open>
  The assignments of the loop body that make up the estimator's update, for the measured
  row \<^verbatim>\<open>V[k]\<close> and the noise variance \<^verbatim>\<open>R_k\<close>:
  \<^verbatim>\<open>
    H_k = np.array([[I[k], 1.0]])
    K_k = P_k @ H_k.T @ np.linalg.inv(H_k @ P_k @ H_k.T + R_k)
    x_k = x_k + K_k @ (V[k] - H_k @ x_k)
    P_k = (np.eye(2) - K_k @ H_k) @ P_k
  \<close>
  \<^verbatim>\<open>@\<close> associates to the left.
\<close>

definition H_k_new :: "ndarray \<Rightarrow> nat \<Rightarrow> error + mat" where
  \<comment> \<open>\<^verbatim>\<open>H_k = np.array([[I[k], 1.0]])\<close>\<close>
  "H_k_new a k = (case item a k of Inl e \<Rightarrow> Inl e | Inr Ik \<Rightarrow> Inr [[Ik, 1]])"

definition S_k ::
  "'a::{zero,plus,times} list list \<Rightarrow> 'a list list \<Rightarrow> 'a list list \<Rightarrow> 'a list list" where
  \<comment> \<open>the argument of \<^verbatim>\<open>inv\<close>: \<^verbatim>\<open>H_k @ P_k @ H_k.T + R_k\<close>\<close>
  "S_k P H R = add (matmul (matmul H P) (T H)) R"

definition K_k_new ::
  "'a::{zero,one,plus,minus,uminus,times,inverse} list list \<Rightarrow> 'a list list \<Rightarrow> 'a list list
     \<Rightarrow> error + 'a list list" where
  "K_k_new P H R =
     (case inv_m (S_k P H R) of
        Inl e \<Rightarrow> Inl e
      | Inr Si \<Rightarrow> Inr (matmul (matmul P (T H)) Si))"

definition x_k_new ::
  "'a::{zero,plus,minus,times} list list \<Rightarrow> 'a list list \<Rightarrow> 'a list \<Rightarrow> 'a list list
     \<Rightarrow> 'a list list" where
  "x_k_new x K Vk H = add x (matmul K (sub_bc Vk (matmul H x)))"

definition P_k_new ::
  "'a::{zero,one,plus,minus,times} list list \<Rightarrow> 'a list list \<Rightarrow> 'a list list \<Rightarrow> 'a list list" where
  "P_k_new P K H = matmul (sub (eye 2) (matmul K H)) P"

text \<open>
  The four assignments together, from the entry \<^verbatim>\<open>I[k]\<close> and the row \<^verbatim>\<open>V[k]\<close> once they
  have been read: the new \<^verbatim>\<open>x_k\<close> and \<^verbatim>\<open>P_k\<close>, or the error of the inversion. The loop
  body below performs the same assignments between its reads and its writes to the
  histories (lemmas \<open>body_returns\<close>, \<open>body_raises\<close> and \<open>body_Inr_D\<close>).
\<close>

definition update ::
  "'a::{zero,one,plus,minus,uminus,times,inverse} list list \<Rightarrow> 'a list list \<Rightarrow> 'a \<Rightarrow> 'a list
     \<Rightarrow> 'a list list \<Rightarrow> error + 'a list list \<times> 'a list list" where
  "update x P Ik Vk R =
     (let H = [[Ik, 1]] in
      case K_k_new P H R of
        Inl e \<Rightarrow> Inl e
      | Inr K \<Rightarrow> Inr (x_k_new x K Vk H, P_k_new P K H))"

subsection \<open>IEEE 754 double precision\<close>

text \<open>
  numpy's \<^verbatim>\<open>float64\<close>: a finite number, an infinity or NaN. Every arithmetic operation
  returns the exact result rounded to the nearest double, ties to even, a result beyond
  the largest double becoming an infinity; the operations on infinities and NaN are
  those of the standard, and every comparison with NaN is false. \<open>Finite x\<close> is meant for
  the \<open>x\<close> that are doubles, which are the fixed points of \<open>fl\<close>. The sign of a zero is
  not represented: only a division by zero could tell the two zeros apart, and the one
  division of the update comes after the test that its divisor is not zero.
\<close>

datatype f64 = Finite real | PInf | NInf | NaN

definition two_pow :: "int \<Rightarrow> real" where
  "two_pow e = (if 0 \<le> e then 2 ^ nat e else 1 / 2 ^ nat (- e))"

definition exponent :: "real \<Rightarrow> int" where
  \<comment> \<open>the exponent of the binade of \<open>x\<close>: the \<open>e\<close> with \<open>2\<^sup>e \<le> \<bar>x\<bar> < 2\<^sup>e\<^sup>+\<^sup>1\<close>, found bit by
      bit from \<open>-1022\<close> upwards, so \<open>-1022\<close> for every \<open>x\<close> in the subnormal range\<close>
  "exponent x =
     foldl (\<lambda>e w. if two_pow (e + w) \<le> \<bar>x\<bar> then e + w else e) (- 1022)
       [1024, 512, 256, 128, 64, 32, 16, 8, 4, 2, 1]"

definition round_half_even :: "real \<Rightarrow> int" where
  "round_half_even x =
     (let f = \<lfloor>x\<rfloor>; d = x - of_int f
      in if d < 1/2 then f else if 1/2 < d then f + 1 else if even f then f else f + 1)"

definition fl :: "real \<Rightarrow> f64" where
  \<comment> \<open>rounding to the nearest double: to a multiple \<open>m u\<close> of the spacing \<open>u\<close> of the doubles
      in the binade of \<open>x\<close> (53 significant bits; \<open>2\<^sup>-\<^sup>1\<^sup>0\<^sup>7\<^sup>4\<close> in the subnormal range), and to an
      infinity when that multiple reaches \<open>2\<^sup>1\<^sup>0\<^sup>2\<^sup>4\<close>\<close>
  "fl x =
     (let e = exponent x;
          u = two_pow (e - 52);
          m = round_half_even (x / u)
      in if 1024 \<le> e \<or> e = 1023 \<and> 2 ^ 53 \<le> \<bar>m\<bar> then (if 0 < x then PInf else NInf)
         else Finite (of_int m * u))"

fun f64_add :: "f64 \<Rightarrow> f64 \<Rightarrow> f64" where
  "f64_add (Finite x) (Finite y) = fl (x + y)"
| "f64_add NaN _ = NaN"
| "f64_add _ NaN = NaN"
| "f64_add PInf NInf = NaN"
| "f64_add NInf PInf = NaN"
| "f64_add PInf _ = PInf"
| "f64_add _ PInf = PInf"
| "f64_add NInf _ = NInf"
| "f64_add _ NInf = NInf"

fun f64_neg :: "f64 \<Rightarrow> f64" where
  "f64_neg (Finite x) = Finite (- x)"
| "f64_neg PInf = NInf"
| "f64_neg NInf = PInf"
| "f64_neg NaN = NaN"

fun f64_mul :: "f64 \<Rightarrow> f64 \<Rightarrow> f64" where
  "f64_mul (Finite x) (Finite y) = fl (x * y)"
| "f64_mul NaN _ = NaN"
| "f64_mul _ NaN = NaN"
| "f64_mul (Finite x) PInf = (if x = 0 then NaN else if 0 < x then PInf else NInf)"
| "f64_mul (Finite x) NInf = (if x = 0 then NaN else if 0 < x then NInf else PInf)"
| "f64_mul PInf (Finite y) = (if y = 0 then NaN else if 0 < y then PInf else NInf)"
| "f64_mul NInf (Finite y) = (if y = 0 then NaN else if 0 < y then NInf else PInf)"
| "f64_mul PInf PInf = PInf"
| "f64_mul PInf NInf = NInf"
| "f64_mul NInf PInf = NInf"
| "f64_mul NInf NInf = PInf"

fun f64_div :: "f64 \<Rightarrow> f64 \<Rightarrow> f64" where
  "f64_div (Finite x) (Finite y) =
     (if y = 0 then (if x = 0 then NaN else if 0 < x then PInf else NInf) else fl (x / y))"
| "f64_div NaN _ = NaN"
| "f64_div _ NaN = NaN"
| "f64_div (Finite x) _ = Finite 0"
| "f64_div PInf (Finite y) = (if 0 \<le> y then PInf else NInf)"
| "f64_div NInf (Finite y) = (if 0 \<le> y then NInf else PInf)"
| "f64_div _ _ = NaN"

fun f64_le :: "f64 \<Rightarrow> f64 \<Rightarrow> bool" where
  "f64_le (Finite x) (Finite y) = (x \<le> y)"
| "f64_le NaN _ = False"
| "f64_le _ NaN = False"
| "f64_le NInf _ = True"
| "f64_le _ PInf = True"
| "f64_le _ _ = False"

fun f64_lt :: "f64 \<Rightarrow> f64 \<Rightarrow> bool" where
  "f64_lt (Finite x) (Finite y) = (x < y)"
| "f64_lt NaN _ = False"
| "f64_lt _ NaN = False"
| "f64_lt PInf _ = False"
| "f64_lt _ NInf = False"
| "f64_lt _ _ = True"

text \<open>The operations of the arrays at \<open>f64\<close>.\<close>

instantiation f64 :: "{zero, one, plus, minus, uminus, times, inverse, ord}"
begin

definition zero_f64 :: f64 where
  "zero_f64 = Finite 0"

definition one_f64 :: f64 where
  "one_f64 = Finite 1"

definition plus_f64 :: "f64 \<Rightarrow> f64 \<Rightarrow> f64" where
  "plus_f64 x y = f64_add x y"

definition uminus_f64 :: "f64 \<Rightarrow> f64" where
  "uminus_f64 x = f64_neg x"

definition minus_f64 :: "f64 \<Rightarrow> f64 \<Rightarrow> f64" where
  "minus_f64 x y = f64_add x (f64_neg y)"

definition times_f64 :: "f64 \<Rightarrow> f64 \<Rightarrow> f64" where
  "times_f64 x y = f64_mul x y"

definition divide_f64 :: "f64 \<Rightarrow> f64 \<Rightarrow> f64" where
  "divide_f64 x y = f64_div x y"

definition inverse_f64 :: "f64 \<Rightarrow> f64" where
  "inverse_f64 x = f64_div (Finite 1) x"

definition less_eq_f64 :: "f64 \<Rightarrow> f64 \<Rightarrow> bool" where
  "less_eq_f64 x y = f64_le x y"

definition less_f64 :: "f64 \<Rightarrow> f64 \<Rightarrow> bool" where
  "less_f64 x y = f64_lt x y"

instance ..

end

subsection \<open>The recursive solution\<close>

text \<open>
  The variables the loop assigns. \<^verbatim>\<open>V\<close>, \<^verbatim>\<open>R_k\<close> and \<^verbatim>\<open>num_meas\<close> are only read and are
  passed as arguments. An exception leaves the loop with the variables as they are at the
  raising statement: the result \<open>Inl (e, s)\<close>.
\<close>

record vars =
  I :: ndarray
  x_k :: mat
  P_k :: mat
  x_hist :: "vec list"
  P_hist :: "mat list"

definition body :: "mat \<Rightarrow> mat \<Rightarrow> nat \<Rightarrow> vars \<Rightarrow> error \<times> vars + vars" where
  "body V R_k k s =
     (case reshape1 (shape0 (I s)) (I s) of
        Inl e \<Rightarrow> Inl (e, s)
      | Inr I' \<Rightarrow>
     (let s = s\<lparr>I := I'\<rparr> in
     (case H_k_new (I s) k of
        Inl e \<Rightarrow> Inl (e, s)
      | Inr H_k \<Rightarrow>
     (case K_k_new (P_k s) H_k R_k of
        Inl e \<Rightarrow> Inl (e, s)
      | Inr K_k \<Rightarrow>
     (case row V k of
        Inl e \<Rightarrow> Inl (e, s)
      | Inr Vk \<Rightarrow>
     (let s = s\<lparr>x_k := x_k_new (x_k s) K_k Vk H_k\<rparr>;
          s = s\<lparr>P_k := P_k_new (P_k s) K_k H_k\<rparr> in
     (case reshape_2_2 (P_k s) of
        Inl e \<Rightarrow> Inl (e, s)
      | Inr P2 \<Rightarrow>
     (if \<not> k + 1 < length (P_hist s) then Inl (IndexError, s) else
     (let s = s\<lparr>P_hist := (P_hist s)[k + 1 := P2]\<rparr> in
     (case reshape_2 (x_k s) of
        Inl e \<Rightarrow> Inl (e, s)
      | Inr x2 \<Rightarrow>
     (if \<not> k + 1 < length (x_hist s) then Inl (IndexError, s) else
      Inr (s\<lparr>x_hist := (x_hist s)[k + 1 := x2]\<rparr>))))))))))))"

text \<open>\<^verbatim>\<open>for k in range(num_meas)\<close>: the body at each index in turn, until one raises.\<close>

fun loop :: "mat \<Rightarrow> mat \<Rightarrow> nat list \<Rightarrow> vars \<Rightarrow> error \<times> vars + vars" where
  "loop V R_k [] s = Inr s"
| "loop V R_k (k # ks) s =
     (case body V R_k k s of
        Inl e \<Rightarrow> Inl e
      | Inr s' \<Rightarrow> loop V R_k ks s')"

text \<open>
  The statements before the loop, with the prior mean, the prior covariance and the noise
  variance as arguments: the history arrays are allocated with \<^verbatim>\<open>num_meas + 1\<close> zero
  entries and entry 0 receives the prior.
\<close>

definition prepare :: "mat \<Rightarrow> mat \<Rightarrow> ndarray \<Rightarrow> error \<times> vars + vars" where
  "prepare x0 P0 I0 =
     (let num_meas = shape0 I0;
          s = \<lparr>I = I0, x_k = x0, P_k = P0,
               x_hist = replicate (num_meas + 1) [0, 0],
               P_hist = replicate (num_meas + 1) [[0, 0], [0, 0]]\<rparr> in
      case reshape_2 (x_k s) of
        Inl e \<Rightarrow> Inl (e, s)
      | Inr x2 \<Rightarrow>
     (let s = s\<lparr>x_hist := (x_hist s)[0 := x2]\<rparr> in
     (case reshape_2_2 (P_k s) of
        Inl e \<Rightarrow> Inl (e, s)
      | Inr P2 \<Rightarrow> Inr (s\<lparr>P_hist := (P_hist s)[0 := P2]\<rparr>))))"

definition estimator :: "mat \<Rightarrow> mat \<Rightarrow> mat \<Rightarrow> ndarray \<Rightarrow> mat \<Rightarrow> error \<times> vars + vars" where
  "estimator x0 P0 R_k I0 V =
     (case prepare x0 P0 I0 of
        Inl e \<Rightarrow> Inl e
      | Inr s \<Rightarrow> loop V R_k [0..<shape0 I0] s)"

text \<open>The data cell and the literals of the recursive cell.\<close>

definition I_data :: ndarray where
  "I_data = Arr2 (T [[2/10, 3/10, 4/10, 5/10, 6/10]])"

definition V_data :: mat where
  "V_data = T [[123/100, 138/100, 206/100, 247/100, 317/100]]"

definition x_0 :: mat where
  "x_0 = [[4], [0]]"

definition P_0 :: mat where
  "P_0 = [[9, 0], [0, 2/10]]"

definition R_noise :: mat where
  "R_noise = [[225/10000]]"

definition recursive_solution :: "error \<times> vars + vars" where
  "recursive_solution = estimator x_0 P_0 R_noise I_data V_data"

subsection \<open>The batch solution\<close>

text \<open>
  \<^verbatim>\<open>
    H = np.ones((5, 2))
    H[:, 0] = I.ravel()
    x_ls = inv(H.T.dot(H)).dot(H.T.dot(V))
  \<close>
  The assignment to the first column needs five entries (or one, which numpy repeats).
\<close>

definition set_col0 :: "mat \<Rightarrow> vec \<Rightarrow> error + mat" where
  "set_col0 H v =
     (if length v = length H then Inr (map2 (\<lambda>a r. a # tl r) v H)
      else if length v = 1 then Inr (map (\<lambda>r. hd v # tl r) H)
      else Inl ValueError)"

definition batch_solution :: "ndarray \<Rightarrow> mat \<Rightarrow> error + mat" where
  "batch_solution I0 V =
     (case set_col0 (replicate 5 [1, 1]) (ravel I0) of
        Inl e \<Rightarrow> Inl e
      | Inr H \<Rightarrow>
     (case inv_m (matmul (T H) H) of
        Inl e \<Rightarrow> Inl e
      | Inr N \<Rightarrow> Inr (matmul N (matmul (T H) V))))"

subsection \<open>Covariance matrices\<close>

text \<open>
  A 2 x 2 array is a covariance when it is symmetric and positive semi-definite. For a
  symmetric 2 x 2 array that is: both diagonal entries and the determinant are
  non-negative (lemma \<open>psd_iff_quadratic_form\<close> below).
\<close>

definition symmetric :: "mat \<Rightarrow> bool" where
  "symmetric P = (T P = P)"

definition psd :: "mat \<Rightarrow> bool" where
  "psd P =
     (case P of
        [[a, b], [c, d]] \<Rightarrow> b = c \<and> 0 \<le> a \<and> 0 \<le> d \<and> 0 \<le> a * d - b * c
      | _ \<Rightarrow> False)"

subsection \<open>The update as the specification words it\<close>

text \<open>
  The specification describes \<^verbatim>\<open>update(I_k, V_k, noise_variance)\<close> in six steps on a
  parameter pair and a 2 x 2 covariance. The definitions below follow those words, entry
  by entry, and are compared with the loop body further down.
\<close>

type_synonym vec2 = "real \<times> real"
type_synonym mat2 = "(real \<times> real) \<times> (real \<times> real)"

definition of_vec2 :: "vec2 \<Rightarrow> mat" where
  "of_vec2 x = [[fst x], [snd x]]"

definition of_mat2 :: "mat2 \<Rightarrow> mat" where
  "of_mat2 P = [[fst (fst P), snd (fst P)], [fst (snd P), snd (snd P)]]"

definition spec_H :: "real \<Rightarrow> vec2" where
  \<comment> \<open>step 1: the observation row \<open>H = [I_k, 1]\<close>\<close>
  "spec_H I_k = (I_k, 1)"

definition spec_S :: "mat2 \<Rightarrow> vec2 \<Rightarrow> real \<Rightarrow> real" where
  \<comment> \<open>step 2: the innovation covariance \<open>S = H P H\<^sup>t + noise_variance\<close>\<close>
  "spec_S P H noise_variance =
     (fst H * fst (fst P) + snd H * fst (snd P)) * fst H
     + (fst H * snd (fst P) + snd H * snd (snd P)) * snd H
     + noise_variance"

definition spec_K :: "mat2 \<Rightarrow> vec2 \<Rightarrow> real \<Rightarrow> vec2" where
  \<comment> \<open>step 3: the gain \<open>K = P H\<^sup>t S\<^sup>-\<^sup>1\<close>, the inverse being the scalar reciprocal\<close>
  "spec_K P H S =
     ((fst (fst P) * fst H + snd (fst P) * snd H) * (1 / S),
      (fst (snd P) * fst H + snd (snd P) * snd H) * (1 / S))"

definition spec_r :: "vec2 \<Rightarrow> vec2 \<Rightarrow> real \<Rightarrow> real" where
  \<comment> \<open>step 4: the residual \<open>r = V_k - H x\<close>\<close>
  "spec_r x H V_k = V_k - (fst H * fst x + snd H * snd x)"

definition spec_x :: "vec2 \<Rightarrow> vec2 \<Rightarrow> real \<Rightarrow> vec2" where
  \<comment> \<open>step 5: \<open>x + K r\<close>\<close>
  "spec_x x K r = (fst x + fst K * r, snd x + snd K * r)"

definition spec_P :: "mat2 \<Rightarrow> vec2 \<Rightarrow> vec2 \<Rightarrow> mat2" where
  \<comment> \<open>step 6: \<open>(I\<^sub>2 - K H) P\<close> with the covariance from before the update\<close>
  "spec_P P K H =
     (let m11 = 1 - fst K * fst H; m12 = 0 - fst K * snd H;
          m21 = 0 - snd K * fst H; m22 = 1 - snd K * snd H
      in ((m11 * fst (fst P) + m12 * fst (snd P), m11 * snd (fst P) + m12 * snd (snd P)),
          (m21 * fst (fst P) + m22 * fst (snd P), m21 * snd (fst P) + m22 * snd (snd P))))"

definition spec_update :: "vec2 \<Rightarrow> mat2 \<Rightarrow> real \<Rightarrow> real \<Rightarrow> real \<Rightarrow> vec2 \<times> mat2" where
  "spec_update x P I_k V_k noise_variance =
     (let H = spec_H I_k;
          S = spec_S P H noise_variance;
          K = spec_K P H S;
          r = spec_r x H V_k
      in (spec_x x K r, spec_P P K H))"

text \<open>The variables with which the cell ends, whether it completes or raises.\<close>

definition final :: "error \<times> vars + vars \<Rightarrow> vars" where
  "final r = (case r of Inl (e, s) \<Rightarrow> s | Inr s \<Rightarrow> s)"

text \<open>The innovation covariance of a 2 x 2 array at the row \<open>[i, 1]\<close>, as a number.\<close>

definition innov :: "real \<Rightarrow> real \<Rightarrow> real \<Rightarrow> real \<Rightarrow> real \<Rightarrow> real \<Rightarrow> real" where
  "innov a b c d i nv = (i * a + c) * i + (i * b + d) + nv"

text \<open>The variables of the notebook when the loop is entered: the prior is entry 0 of
  both histories.\<close>

definition s_0 :: vars where
  "s_0 = \<lparr>I = I_data, x_k = x_0, P_k = P_0,
          x_hist = [[4, 0], [0, 0], [0, 0], [0, 0], [0, 0], [0, 0]],
          P_hist = [[[9, 0], [0, 2/10]], [[0, 0], [0, 0]], [[0, 0], [0, 0]], [[0, 0], [0, 0]],
                    [[0, 0], [0, 0]], [[0, 0], [0, 0]]]\<rparr>"

text \<open>
  Processing a list of measurements from an estimate and its covariance: the update
  applied to each pair \<open>(I_k, V_k)\<close> in turn, an error ending the run. The loop of the
  recursive cell is related to it below.
\<close>

definition process ::
  "'a::{zero,one,plus,minus,uminus,times,inverse} \<Rightarrow> 'a \<times> 'a \<Rightarrow> error + 'a list list \<times> 'a list list
     \<Rightarrow> error + 'a list list \<times> 'a list list" where
  "process nv m st =
     (case st of
        Inl e \<Rightarrow> Inl e
      | Inr xP \<Rightarrow> update (fst xP) (snd xP) (fst m) [snd m] [[nv]])"

text \<open>
  The states from which a pass over any index below the number of measurements
  completes: \<^verbatim>\<open>I\<close> holds the currents \<open>cs\<close> (as a column or flat), the histories have one
  entry more than there are currents, \<^verbatim>\<open>x_k\<close> is 2 x 1 and \<^verbatim>\<open>P_k\<close> a covariance.
\<close>

definition ready :: "real list \<Rightarrow> vars \<Rightarrow> bool" where
  "ready cs s \<longleftrightarrow>
     ravel (I s) = cs \<and> shape0 (I s) = length cs \<and>
     length (x_hist s) = length cs + 1 \<and> length (P_hist s) = length cs + 1 \<and>
     map length (x_k s) = [1, 1] \<and> psd (P_k s)"

section \<open>Properties\<close>

subsection \<open>The array operations at the notebook's shapes\<close>

lemma dot_sum_list:
  fixes u v :: "real list"
  shows "dot u v = sum_list (map2 (*) u v)"
proof -
  have "foldl (+) a xs = a + sum_list xs" for a :: real and xs
    by (induction xs arbitrary: a) simp_all
  then show ?thesis by (simp add: dot_def)
qed

lemma eye_2: "eye 2 = [[1, 0], [0, 1]]"
  by (simp add: eye_def numeral_2_eq_2)

lemma S_k_2:
  "S_k [[a, b], [c, d]] [[i, 1]] [[nv]] = [[innov a b c d i nv]]"
  by (simp add: S_k_def add_def matmul_def dot_def innov_def)

lemma K_k_new_2:
  "K_k_new [[a, b], [c, d]] [[i, 1]] [[nv]] =
     (if innov a b c d i nv = 0 then Inl LinAlgError
      else Inr [[(a * i + b) * (1 / innov a b c d i nv)],
                [(c * i + d) * (1 / innov a b c d i nv)]])"
  by (simp add: K_k_new_def S_k_2 matmul_def dot_def)

lemma x_k_new_2:
  fixes x0 :: real
  shows "x_k_new [[x0], [x1]] [[k0], [k1]] [v] [[i, 1]] =
     [[x0 + k0 * (v - (i * x0 + x1))], [x1 + k1 * (v - (i * x0 + x1))]]"
  by (simp add: x_k_new_def add_def matmul_def dot_def sub_bc_def)

lemma P_k_new_2:
  fixes a :: real
  shows "P_k_new [[a, b], [c, d]] [[k0], [k1]] [[i, 1]] =
     [[(1 - k0 * i) * a + (0 - k0) * c, (1 - k0 * i) * b + (0 - k0) * d],
      [(0 - k1 * i) * a + (1 - k1) * c, (0 - k1 * i) * b + (1 - k1) * d]]"
  by (simp add: P_k_new_def sub_def matmul_def dot_def eye_2)

lemma update_raises:
  "innov a b c d i nv = 0 \<Longrightarrow> update x [[a, b], [c, d]] i Vk [[nv]] = Inl LinAlgError"
  by (simp add: update_def K_k_new_2)

lemma update_returns:
  "innov a b c d i nv \<noteq> 0 \<Longrightarrow>
   update x [[a, b], [c, d]] i Vk [[nv]] =
     Inr (x_k_new x [[(a * i + b) * (1 / innov a b c d i nv)],
                     [(c * i + d) * (1 / innov a b c d i nv)]] Vk [[i, 1]],
          P_k_new [[a, b], [c, d]] [[(a * i + b) * (1 / innov a b c d i nv)],
                     [(c * i + d) * (1 / innov a b c d i nv)]] [[i, 1]])"
  by (simp add: update_def K_k_new_2 Let_def)

lemma update_Inl_iff:
  "update x P i Vk R = Inl e \<longleftrightarrow> K_k_new P [[i, 1]] R = Inl e"
  by (simp add: update_def Let_def split: sum.splits)

lemma update_Inr_iff:
  "update x P i Vk R = Inr (x', P') \<longleftrightarrow>
     (\<exists>K. K_k_new P [[i, 1]] R = Inr K \<and> x' = x_k_new x K Vk [[i, 1]] \<and> P' = P_k_new P K [[i, 1]])"
  by (auto simp add: update_def Let_def split: sum.splits)

lemma spec_S_innov: "spec_S ((a, b), (c, d)) (i, 1) nv = innov a b c d i nv"
  by (simp add: spec_S_def innov_def)

subsection \<open>The arithmetic of doubles\<close>

lemmas fl_eval = fl_def two_pow_def round_half_even_def exponent_def Let_def

lemmas f64_eval = zero_f64_def one_f64_def plus_f64_def minus_f64_def uminus_f64_def
  times_f64_def divide_f64_def less_eq_f64_def less_f64_def fl_eval

lemmas update_eval = update_def K_k_new_def S_k_def x_k_new_def P_k_new_def eye_2 matmul_def
  dot_def add_def sub_def sub_bc_def

text \<open>
  Rounding at known doubles: \<open>0.1\<close>, a tie that goes to the even neighbour and one that
  goes up, the largest double and the first number that overflows, the subnormal range
  and the underflow to zero.
\<close>

lemma fl_known_answers:
  "fl 0 = Finite 0"
  "fl (1/10) = Finite (3602879701896397 / 2 ^ 55)"
  "fl (1 + 1 / 2 ^ 53) = Finite 1"
  "fl (1 + 3 / 2 ^ 53) = Finite (1 + 4 / 2 ^ 53)"
  "fl (2 ^ 1024 - 2 ^ 970 - 1) = Finite (2 ^ 1024 - 2 ^ 971)"
  "fl (2 ^ 1024 - 2 ^ 970) = PInf"
  "fl (- (10 * 2 ^ 1023)) = NInf"
  "fl (3 / 2 ^ 1075) = Finite (2 / 2 ^ 1074)"
  "fl (1 / 2 ^ 1075) = Finite 0"
  by (simp add: fl_eval cong: let_weak_cong)+

text \<open>\<open>0.1 + 0.2\<close> is the double above \<open>0.3\<close>, and \<open>0 \<times> \<infinity>\<close> is NaN.\<close>

lemma f64_known_answers:
  "fl (1/10) + fl (2/10) = Finite (5404319552844596 / 2 ^ 54)"
  "fl (3/10) = Finite (5404319552844595 / 2 ^ 54)"
  "Finite 0 * PInf = NaN"
  "Finite 1 / Finite (1 / 2 ^ 1074) = PInf"
  by (simp add: f64_eval cong: let_weak_cong)+

text \<open>The doubles that the literals of the data cell and of the recursive cell denote.\<close>

lemma f64_literals:
  "fl (2/10) = Finite (3602879701896397 / 2 ^ 54)"
  "fl (3/10) = Finite (5404319552844595 / 2 ^ 54)"
  "fl (4/10) = Finite (3602879701896397 / 2 ^ 53)"
  "fl (5/10) = Finite (1 / 2 ^ 1)"
  "fl (6/10) = Finite (5404319552844595 / 2 ^ 53)"
  "fl (123/100) = Finite (2769713770832855 / 2 ^ 51)"
  "fl (138/100) = Finite (1553741871442821 / 2 ^ 50)"
  "fl (206/100) = Finite (4638707616191611 / 2 ^ 51)"
  "fl (247/100) = Finite (5561945539802563 / 2 ^ 51)"
  "fl (317/100) = Finite (1784551352345559 / 2 ^ 49)"
  "fl (225/10000) = Finite (3242591731706757 / 2 ^ 57)"
  "fl (4976925034352892 / 10 ^ 15) = Finite (1400879858135161 / 2 ^ 48)"
  "fl (6966257824825756 / 10 ^ 17) = Finite (1254929445762083 / 2 ^ 54)"
  by (simp add: fl_eval cong: let_weak_cong)+

lemma f64_pass_1:
  "update [[Finite 4], [Finite 0]]
      [[Finite 9, Finite 0],
       [Finite 0, Finite (3602879701896397 / 2 ^ 54)]]
      (Finite (3602879701896397 / 2 ^ 54)) [Finite (2769713770832855 / 2 ^ 51)] [[Finite (3242591731706757 / 2 ^ 57)]] =
     Inr ([[Finite (374977823051449 / 2 ^ 46)], [Finite (5319273036276225 / 2 ^ 55)]],
          [[Finite (1935291470774553 / 2 ^ 49), Finite (- (347917567779695 / 2 ^ 49))],
           [Finite (- (5566681084475121 / 2 ^ 53)), Finite (4731678921803851 / 2 ^ 55)]])"
  by (simp add: update_eval f64_eval cong: let_weak_cong)

lemma f64_pass_2:
  "update [[Finite (374977823051449 / 2 ^ 46)], [Finite (5319273036276225 / 2 ^ 55)]]
      [[Finite (1935291470774553 / 2 ^ 49), Finite (- (347917567779695 / 2 ^ 49))],
       [Finite (- (5566681084475121 / 2 ^ 53)), Finite (4731678921803851 / 2 ^ 55)]]
      (Finite (5404319552844595 / 2 ^ 54)) [Finite (1553741871442821 / 2 ^ 50)] [[Finite (3242591731706757 / 2 ^ 57)]] =
     Inr ([[Finite (8310717807665927 / 2 ^ 51)], [Finite (6520572250454095 / 2 ^ 54)]],
          [[Finite (3578879327706647 / 2 ^ 51), Finite (- (847072030226425 / 2 ^ 51))],
           [Finite (- (847072030226425 / 2 ^ 51)), Finite (7183170816320081 / 2 ^ 56)]])"
  by (simp add: update_eval f64_eval cong: let_weak_cong)

lemma f64_pass_3:
  "update [[Finite (8310717807665927 / 2 ^ 51)], [Finite (6520572250454095 / 2 ^ 54)]]
      [[Finite (3578879327706647 / 2 ^ 51), Finite (- (847072030226425 / 2 ^ 51))],
       [Finite (- (847072030226425 / 2 ^ 51)), Finite (7183170816320081 / 2 ^ 56)]]
      (Finite (3602879701896397 / 2 ^ 53)) [Finite (4638707616191611 / 2 ^ 51)] [[Finite (3242591731706757 / 2 ^ 57)]] =
     Inr ([[Finite (156664083676211 / 2 ^ 45)], [Finite (3834998002018585 / 2 ^ 54)]],
          [[Finite (6282332253306739 / 2 ^ 53), Finite (- (3633156001912329 / 2 ^ 54))],
           [Finite (- (454144500239041 / 2 ^ 51)), Finite (4723102802486025 / 2 ^ 56)]])"
  by (simp add: update_eval f64_eval cong: let_weak_cong)

lemma f64_pass_4:
  "update [[Finite (156664083676211 / 2 ^ 45)], [Finite (3834998002018585 / 2 ^ 54)]]
      [[Finite (6282332253306739 / 2 ^ 53), Finite (- (3633156001912329 / 2 ^ 54))],
       [Finite (- (454144500239041 / 2 ^ 51)), Finite (4723102802486025 / 2 ^ 56)]]
      (Finite (1 / 2 ^ 1)) [Finite (5561945539802563 / 2 ^ 51)] [[Finite (3242591731706757 / 2 ^ 57)]] =
     Inr ([[Finite (5097173331284621 / 2 ^ 50)], [Finite (7025470024036895 / 2 ^ 55)]],
          [[Finite (6150194164254133 / 2 ^ 54), Finite (- (4187366239492175 / 2 ^ 55))],
           [Finite (- (1046841559873043 / 2 ^ 53)), Finite (6490417671212867 / 2 ^ 57)]])"
  by (simp add: update_eval f64_eval cong: let_weak_cong)

lemma f64_pass_5:
  "update [[Finite (5097173331284621 / 2 ^ 50)], [Finite (7025470024036895 / 2 ^ 55)]]
      [[Finite (6150194164254133 / 2 ^ 54), Finite (- (4187366239492175 / 2 ^ 55))],
       [Finite (- (1046841559873043 / 2 ^ 53)), Finite (6490417671212867 / 2 ^ 57)]]
      (Finite (5404319552844595 / 2 ^ 53)) [Finite (1784551352345559 / 2 ^ 49)] [[Finite (3242591731706757 / 2 ^ 57)]] =
     Inr ([[Finite (1400879858135161 / 2 ^ 48)], [Finite (1254929445762083 / 2 ^ 54)]],
          [[Finite (6749554777688749 / 2 ^ 55), Finite (- (2640412626968703 / 2 ^ 55))],
           [Finite (- (5280825253937405 / 2 ^ 56)), Finite (4765944791678507 / 2 ^ 57)]])"
  by (simp add: update_eval f64_eval cong: let_weak_cong)

text \<open>
  The five updates of the notebook's data at \<open>f64\<close>, from the prior of the recursive
  cell: the estimate they end with is, to the last bit, the pair of doubles that the
  notebook's stored output prints, \<^verbatim>\<open>4.976925034352892\<close> and \<^verbatim>\<open>0.06966257824825756\<close>
  (Python prints the shortest decimal that rounds to the double).
\<close>

lemma f64_run_gives_the_stored_output:
  "fold (process (fl (225/10000)))
       [(fl (2/10), fl (123/100)),
        (fl (3/10), fl (138/100)),
        (fl (4/10), fl (206/100)),
        (fl (5/10), fl (247/100)),
        (fl (6/10), fl (317/100))]
       (Inr ([[Finite 4], [Finite 0]], [[Finite 9, Finite 0], [Finite 0, fl (2/10)]])) =
     Inr ([[fl (4976925034352892 / 10 ^ 15)], [fl (6966257824825756 / 10 ^ 17)]],
          [[Finite (6749554777688749 / 2 ^ 55), Finite (- (2640412626968703 / 2 ^ 55))],
           [Finite (- (5280825253937405 / 2 ^ 56)), Finite (4765944791678507 / 2 ^ 57)]])"
  unfolding f64_literals
  by (simp only: fold_simps o_apply process_def sum.case fst_conv snd_conv
      f64_pass_1 f64_pass_2 f64_pass_3 f64_pass_4 f64_pass_5)

lemma tiny_noise: "fl (1 / 10 ^ 320) = Finite (2024 / 2 ^ 1074)"
  by (simp add: fl_eval cong: let_weak_cong)

subsection \<open>The loop body against the six steps of the specification\<close>

lemma update_spec_update:
  assumes "spec_S P (spec_H I_k) noise_variance \<noteq> 0"
  shows "update (of_vec2 x) (of_mat2 P) I_k [V_k] [[noise_variance]] =
           Inr (of_vec2 (fst (spec_update x P I_k V_k noise_variance)),
                of_mat2 (snd (spec_update x P I_k V_k noise_variance)))"
proof -
  obtain x1 x2 where x: "x = (x1, x2)" by (cases x)
  obtain a b c d where P: "P = ((a, b), (c, d))" by (cases P) auto
  have nz: "innov a b c d I_k noise_variance \<noteq> 0"
    using assms by (simp add: P spec_H_def spec_S_innov)
  show ?thesis
    unfolding x P of_vec2_def of_mat2_def fst_conv snd_conv update_returns [OF nz]
      x_k_new_2 P_k_new_2
    by (simp add: spec_update_def Let_def spec_S_innov spec_K_def spec_r_def spec_x_def
        spec_P_def spec_H_def)
qed

text \<open>
  Claim C2. For every parameter pair \<open>x\<close>, every 2 x 2 array \<open>P\<close> and every measurement
  \<open>(I_k, V_k)\<close> with noise variance \<open>noise_variance\<close>: when the innovation covariance is
  not zero, the three assignments of the loop body yield exactly the pair that the six
  steps of the specification describe (row \<open>H = [I_k, 1]\<close>, scalar \<open>S\<close>, gain \<open>K\<close>,
  residual \<open>r\<close>, \<open>x + K r\<close>, and \<open>(I\<^sub>2 - K H) P\<close> with the covariance from before the
  update).
\<close>

theorem update_performs_the_six_steps:
  assumes "spec_S P (spec_H I_k) noise_variance \<noteq> 0"
  shows "update (of_vec2 x) (of_mat2 P) I_k [V_k] [[noise_variance]] =
           Inr (of_vec2 (fst (spec_update x P I_k V_k noise_variance)),
                of_mat2 (snd (spec_update x P I_k V_k noise_variance)))"
  using assms by (rule update_spec_update)

theorem update_performs_the_six_steps_witness:
  "spec_S ((9, 0), (0, 1/5)) (spec_H (1/5)) (9/400) \<noteq> 0 \<and>
   update (of_vec2 (4, 0)) (of_mat2 ((9, 0), (0, 1/5))) (1/5) [123/100] [[9/400]] =
     Inr ([[6208/1165], [172/1165]], [[801/233, - (144/233)], [- (144/233), 153/1165]])"
proof -
  have nz: "spec_S ((9, 0), (0, 1/5)) (spec_H (1/5)) (9/400) \<noteq> 0"
    by (simp add: spec_S_def spec_H_def)
  show ?thesis
    using nz update_performs_the_six_steps [OF nz, of "(4, 0)" "123/100"]
    by (simp add: spec_update_def Let_def spec_S_def spec_H_def spec_K_def spec_r_def
        spec_x_def spec_P_def of_vec2_def of_mat2_def)
qed

subsection \<open>Positive semi-definite covariances\<close>

lemma psdE:
  assumes "psd P"
  obtains a b d where "P = [[a, b], [b, d]]" "0 \<le> a" "0 \<le> d" "b * b \<le> a * d"
  using assms unfolding psd_def
  by (auto split: list.splits)

lemma psd_2: "psd [[a, b], [c, d]] \<longleftrightarrow> b = c \<and> 0 \<le> a \<and> 0 \<le> d \<and> b * c \<le> a * d"
  by (simp add: psd_def)

lemma psd_symmetric: "psd P \<Longrightarrow> symmetric P"
  by (erule psdE) (simp add: symmetric_def)

lemma quadratic_form_nonneg:
  fixes a b d u v :: real
  assumes a: "0 \<le> a" and d: "0 \<le> d" and det: "b * b \<le> a * d"
  shows "0 \<le> a * u * u + 2 * b * u * v + d * v * v"
proof (cases "a = 0")
  case True
  with det have "b * b \<le> 0" by simp
  then have "b = 0" by (metis mult_eq_0_iff zero_le_square antisym)
  moreover have "0 \<le> d * (v * v)" by (rule mult_nonneg_nonneg [OF d zero_le_square])
  ultimately show ?thesis using True by (simp add: mult.assoc)
next
  case False
  with a have pos: "0 < a" by simp
  have "a * (a * u * u + 2 * b * u * v + d * v * v) =
          (a * u + b * v) * (a * u + b * v) + (a * d - b * b) * (v * v)"
    by (simp add: algebra_simps)
  moreover have "0 \<le> (a * u + b * v) * (a * u + b * v)" by (rule zero_le_square)
  moreover have "0 \<le> (a * d - b * b) * (v * v)"
    by (rule mult_nonneg_nonneg [OF _ zero_le_square]) (use det in simp)
  ultimately have "0 \<le> a * (a * u * u + 2 * b * u * v + d * v * v)" by linarith
  with pos show ?thesis by (simp add: zero_le_mult_iff)
qed

lemma innov_pos:
  assumes "0 \<le> a" "0 \<le> d" "b * b \<le> a * d" "0 < nv"
  shows "0 < innov a b b d i nv"
proof -
  have "0 \<le> a * i * i + 2 * b * i * 1 + d * 1 * 1"
    by (rule quadratic_form_nonneg) (use assms in simp_all)
  moreover have "innov a b b d i nv = (a * i * i + 2 * b * i * 1 + d * 1 * 1) + nv"
    by (simp add: innov_def algebra_simps)
  ultimately show ?thesis using assms(4) by linarith
qed

text \<open>The executable test \<open>psd\<close> is positive semi-definiteness of a symmetric array.\<close>

lemma psd_iff_quadratic_form:
  "psd [[a, b], [c, d]] \<longleftrightarrow>
     b = c \<and> (\<forall>u v. 0 \<le> dot [u, v] (concat (matmul [[a, b], [c, d]] [[u], [v]])))"
proof -
  have q: "dot [u, v] (concat (matmul [[a, b], [c, d]] [[u], [v]])) =
             a * u * u + 2 * b * u * v + d * v * v" if "b = c" for u v
    using that by (simp add: dot_def matmul_def algebra_simps)
  show ?thesis
  proof (cases "b = c")
    case False
    then show ?thesis by (simp add: psd_2)
  next
    case True
    have "(0 \<le> a \<and> 0 \<le> d \<and> b * b \<le> a * d) \<longleftrightarrow>
            (\<forall>u v. 0 \<le> a * u * u + 2 * b * u * v + d * v * v)" (is "?L \<longleftrightarrow> ?R")
    proof
      assume ?L
      then show ?R by (auto intro: quadratic_form_nonneg)
    next
      assume R: ?R
      from R [rule_format, of 1 0] have a: "0 \<le> a" by simp
      from R [rule_format, of 0 1] have d: "0 \<le> d" by simp
      have "b * b \<le> a * d"
      proof (cases "a = 0")
        case False
        with a have pos: "0 < a" by simp
        from R [rule_format, of "- b" a]
        have "0 \<le> a * (a * d - b * b)" by (simp add: algebra_simps)
        with pos have "0 \<le> a * d - b * b" by (simp add: zero_le_mult_iff)
        then show ?thesis by simp
      next
        case True
        have "b = 0"
        proof (rule ccontr)
          assume nz: "b \<noteq> 0"
          from R [rule_format, of "- (d + 1) / (2 * b)" 1] True nz
          show False by (simp add: field_simps)
        qed
        with True show ?thesis by simp
      qed
      with a d show ?L by simp
    qed
    then show ?thesis using True q [OF True] by (simp add: psd_2)
  qed
qed

subsection \<open>One update of a covariance\<close>

lemma cov_new_sym:
  assumes nz: "innov a b b d i nv \<noteq> 0"
  shows "P_k_new [[a, b], [b, d]] [[(a * i + b) * (1 / innov a b b d i nv)],
                     [(b * i + d) * (1 / innov a b b d i nv)]] [[i, 1]] =
     [[(a * d - b * b + a * nv) / innov a b b d i nv,
       (b * nv - i * (a * d - b * b)) / innov a b b d i nv],
      [(b * nv - i * (a * d - b * b)) / innov a b b d i nv,
       ((a * d - b * b) * i * i + d * nv) / innov a b b d i nv]]"
proof -
  define s where "s = innov a b b d i nv"
  have s: "s = a * i * i + 2 * b * i + d + nv"
    by (simp add: s_def innov_def algebra_simps)
  have nz': "s \<noteq> 0" using nz by (simp add: s_def)
  have 1: "(1 - (a * i + b) * (1 / s) * i) * a + (0 - (a * i + b) * (1 / s)) * b
             = (a * d - b * b + a * nv) / s"
    using nz' by (simp add: field_simps) (simp add: s algebra_simps)
  have 2: "(1 - (a * i + b) * (1 / s) * i) * b + (0 - (a * i + b) * (1 / s)) * d
             = (b * nv - i * (a * d - b * b)) / s"
    using nz' by (simp add: field_simps) (simp add: s algebra_simps)
  have 3: "(0 - (b * i + d) * (1 / s) * i) * a + (1 - (b * i + d) * (1 / s)) * b
             = (b * nv - i * (a * d - b * b)) / s"
    using nz' by (simp add: field_simps) (simp add: s algebra_simps)
  have 4: "(0 - (b * i + d) * (1 / s) * i) * b + (1 - (b * i + d) * (1 / s)) * d
             = ((a * d - b * b) * i * i + d * nv) / s"
    using nz' by (simp add: field_simps) (simp add: s algebra_simps)
  show ?thesis
    unfolding P_k_new_2 s_def [symmetric] 1 2 3 4 ..
qed

lemma update_sym:
  assumes nz: "innov a b b d i nv \<noteq> 0"
  shows "update [[x0], [x1]] [[a, b], [b, d]] i [v] [[nv]] =
     Inr ([[x0 + (a * i + b) * (v - (i * x0 + x1)) / innov a b b d i nv],
           [x1 + (b * i + d) * (v - (i * x0 + x1)) / innov a b b d i nv]],
          [[(a * d - b * b + a * nv) / innov a b b d i nv,
            (b * nv - i * (a * d - b * b)) / innov a b b d i nv],
           [(b * nv - i * (a * d - b * b)) / innov a b b d i nv,
            ((a * d - b * b) * i * i + d * nv) / innov a b b d i nv]])"
  unfolding update_returns [OF nz] cov_new_sym [OF nz] x_k_new_2 by simp

lemma cov_new_det:
  fixes a b d i nv :: real
  assumes s: "s = innov a b b d i nv" and nz: "s \<noteq> 0"
  shows "((a * d - b * b + a * nv) / s) * (((a * d - b * b) * i * i + d * nv) / s)
          - ((b * nv - i * (a * d - b * b)) / s) * ((b * nv - i * (a * d - b * b)) / s)
         = (a * d - b * b) * nv / s"
proof -
  have e: "s = a * i * i + 2 * b * i + d + nv"
    by (simp add: s innov_def algebra_simps)
  have n: "(a * d - b * b + a * nv) * ((a * d - b * b) * i * i + d * nv)
          - (b * nv - i * (a * d - b * b)) * (b * nv - i * (a * d - b * b))
        = (a * d - b * b) * nv * s"
    unfolding e by (simp add: algebra_simps)
  have "((a * d - b * b + a * nv) / s) * (((a * d - b * b) * i * i + d * nv) / s)
          - ((b * nv - i * (a * d - b * b)) / s) * ((b * nv - i * (a * d - b * b)) / s)
        = ((a * d - b * b + a * nv) * ((a * d - b * b) * i * i + d * nv)
          - (b * nv - i * (a * d - b * b)) * (b * nv - i * (a * d - b * b))) / (s * s)"
    by (simp only: times_divide_times_eq diff_divide_distrib [symmetric])
  also have "\<dots> = (a * d - b * b) * nv * s / (s * s)"
    by (simp only: n)
  also have "\<dots> = (a * d - b * b) * nv / s"
    using nz by simp
  finally show ?thesis .
qed

lemma update_keeps_psd:
  assumes psd: "0 \<le> a" "0 \<le> d" "b * b \<le> a * d" and nv: "0 < nv"
  shows "psd [[(a * d - b * b + a * nv) / innov a b b d i nv,
               (b * nv - i * (a * d - b * b)) / innov a b b d i nv],
              [(b * nv - i * (a * d - b * b)) / innov a b b d i nv,
               ((a * d - b * b) * i * i + d * nv) / innov a b b d i nv]]"
proof -
  define s where "s = innov a b b d i nv"
  have pos: "0 < s" unfolding s_def by (rule innov_pos [OF psd nv])
  have det: "0 \<le> a * d - b * b" using psd(3) by simp
  have 1: "0 \<le> (a * d - b * b + a * nv) / s"
    using pos det psd(1) nv by (intro divide_nonneg_pos add_nonneg_nonneg mult_nonneg_nonneg) simp_all
  have "0 \<le> (a * d - b * b) * (i * i)"
    by (rule mult_nonneg_nonneg [OF det zero_le_square])
  moreover have "0 \<le> d * nv"
    using psd(2) nv by (intro mult_nonneg_nonneg) simp_all
  ultimately have "0 \<le> (a * d - b * b) * i * i + d * nv"
    by (simp add: mult.assoc)
  then have 2: "0 \<le> ((a * d - b * b) * i * i + d * nv) / s"
    using pos by (intro divide_nonneg_pos)
  have nn: "0 \<le> (a * d - b * b) * nv / s"
    using pos det nv by (intro divide_nonneg_pos mult_nonneg_nonneg) simp_all
  have eq: "((a * d - b * b + a * nv) / s) * (((a * d - b * b) * i * i + d * nv) / s)
          - ((b * nv - i * (a * d - b * b)) / s) * ((b * nv - i * (a * d - b * b)) / s)
         = (a * d - b * b) * nv / s"
    by (rule cov_new_det [OF s_def]) (use pos in simp)
  from nn eq
  have 3: "((b * nv - i * (a * d - b * b)) / s) * ((b * nv - i * (a * d - b * b)) / s)
            \<le> ((a * d - b * b + a * nv) / s) * (((a * d - b * b) * i * i + d * nv) / s)"
    by linarith
  show ?thesis
    unfolding psd_2 s_def [symmetric] using 1 2 3 by blast
qed

lemma update_psd:
  assumes P: "psd P" and nv: "0 < nv"
  shows "\<exists>x' P'. update x P i Vk [[nv]] = Inr (x', P') \<and> psd P' \<and>
           P' ! 0 ! 0 \<le> P ! 0 ! 0 \<and> P' ! 1 ! 1 \<le> P ! 1 ! 1"
proof -
  from P obtain a b d where
    Pe: "P = [[a, b], [b, d]]" and a: "0 \<le> a" and d: "0 \<le> d" and det: "b * b \<le> a * d"
    by (rule psdE)
  define s where "s = innov a b b d i nv"
  have pos: "0 < s" unfolding s_def by (rule innov_pos [OF a d det nv])
  then have nz: "innov a b b d i nv \<noteq> 0" by (simp add: s_def)
  have se: "s = a * i * i + 2 * b * i + d + nv"
    by (simp add: s_def innov_def algebra_simps)
  define P' where "P' = [[(a * d - b * b + a * nv) / s, (b * nv - i * (a * d - b * b)) / s],
                         [(b * nv - i * (a * d - b * b)) / s, ((a * d - b * b) * i * i + d * nv) / s]]"
  have u: "update x P i Vk [[nv]] =
             Inr (x_k_new x [[(a * i + b) * (1 / s)], [(b * i + d) * (1 / s)]] Vk [[i, 1]], P')"
    unfolding Pe update_returns [OF nz] cov_new_sym [OF nz] P'_def s_def ..
  have psd': "psd P'"
    unfolding P'_def s_def by (rule update_keeps_psd [OF a d det nv])
  have "a - (a * d - b * b + a * nv) / s = (a * i + b) * (a * i + b) / s"
    using nz unfolding s_def [symmetric] by (simp add: field_simps) (simp add: se algebra_simps)
  moreover have "0 \<le> (a * i + b) * (a * i + b) / s"
    using pos by (intro divide_nonneg_pos zero_le_square)
  ultimately have 1: "(a * d - b * b + a * nv) / s \<le> a" by linarith
  have "d - ((a * d - b * b) * i * i + d * nv) / s = (b * i + d) * (b * i + d) / s"
    using nz unfolding s_def [symmetric] by (simp add: field_simps) (simp add: se algebra_simps)
  moreover have "0 \<le> (b * i + d) * (b * i + d) / s"
    using pos by (intro divide_nonneg_pos zero_le_square)
  ultimately have 2: "((a * d - b * b) * i * i + d * nv) / s \<le> d" by linarith
  show ?thesis
    using u psd' 1 2 by (simp add: Pe P'_def)
qed

text \<open>
  Claim C10, as the specification states it, fails as numpy runs the update. With the
  positive semi-definite covariance of entries \<open>\<plusminus>2\<^sup>1\<^sup>0\<^sup>2\<^sup>3\<close>, the current 10 and the noise
  variance 1, the products \<open>10 \<times> 2\<^sup>1\<^sup>0\<^sup>2\<^sup>3\<close> overflow, \<open>H P\<close> is \<open>[\<infinity>, -\<infinity>]\<close> and the
  innovation covariance is \<open>\<infinity> - \<infinity>\<close>, NaN: not positive, and the update returns NaN
  without raising. (Fused or reordered, the sums \<open>10 \<times> 2\<^sup>1\<^sup>0\<^sup>2\<^sup>3 - 2\<^sup>1\<^sup>0\<^sup>2\<^sup>3\<close> still overflow.)
  And where the innovation covariance is positive it need not have an inverse: that of
  \<^verbatim>\<open>1e-320\<close> is an infinity.
\<close>

theorem innovation_covariance_is_nan:
  "psd [[2 ^ 1023, - (2 ^ 1023)], [- (2 ^ 1023), 2 ^ 1023]] \<and>
   fl (2 ^ 1023) = Finite (2 ^ 1023) \<and> Finite 0 < Finite 1 \<and>
   S_k [[Finite (2 ^ 1023), Finite (- (2 ^ 1023))], [Finite (- (2 ^ 1023)), Finite (2 ^ 1023)]]
       [[Finite 10, Finite 1]] [[Finite 1]] = [[NaN]] \<and>
   \<not> Finite 0 < NaN \<and>
   update [[Finite 4], [Finite 0]]
       [[Finite (2 ^ 1023), Finite (- (2 ^ 1023))], [Finite (- (2 ^ 1023)), Finite (2 ^ 1023)]]
       (Finite 10) [Finite 1] [[Finite 1]] =
     Inr ([[NaN], [NaN]], [[NaN, NaN], [NaN, NaN]]) \<and>
   Finite 0 < Finite (2024 / 2 ^ 1074) \<and>
   inv_m [[Finite (2024 / 2 ^ 1074)]] = Inr [[PInf]]"
  by (simp add: psd_2 update_eval f64_eval cong: let_weak_cong)

text \<open>
  Claim C10, amended to exact arithmetic. When the current covariance is positive
  semi-definite and the noise variance is positive, the innovation covariance
  \<open>H P H\<^sup>t + R\<close> is a 1 x 1 array with a positive entry, its inversion succeeds, and the
  update returns: the branch where \<^verbatim>\<open>np.linalg.inv\<close> raises is not taken.
\<close>

theorem innovation_covariance_positive:
  assumes "psd P" and "0 < nv"
  shows "\<exists>s. S_k P [[Ik, 1]] [[nv]] = [[s]] \<and> 0 < s \<and> inv_m [[s]] = Inr [[1 / s]] \<and>
             (\<exists>r. update x P Ik Vk [[nv]] = Inr r)"
proof -
  from assms(1) obtain a b d where
    Pe: "P = [[a, b], [b, d]]" and a: "0 \<le> a" and d: "0 \<le> d" and det: "b * b \<le> a * d"
    by (rule psdE)
  have pos: "0 < innov a b b d Ik nv" by (rule innov_pos [OF a d det assms(2)])
  from update_psd [OF assms, of x Ik Vk] obtain r where "update x P Ik Vk [[nv]] = Inr r"
    by blast
  with pos show ?thesis by (simp add: Pe S_k_2)
qed

theorem innovation_covariance_positive_witness:
  "psd P_0 \<and> (0::real) < 9/400 \<and>
   (\<exists>s. S_k P_0 [[1/5, 1]] [[9/400]] = [[s]] \<and> 0 < s \<and> inv_m [[s]] = Inr [[1 / s]] \<and>
        (\<exists>r. update x_0 P_0 (1/5) [123/100] [[9/400]] = Inr r))"
proof -
  have p: "psd P_0" by (simp add: P_0_def psd_2)
  have n: "(0::real) < 9/400" by simp
  from innovation_covariance_positive [OF p n] p n show ?thesis by blast
qed

subsection \<open>The loop body in terms of the update\<close>

lemma final_simps [simp]: "final (Inr s) = s" "final (Inl (e, s)) = s"
  by (simp_all add: final_def)

lemma body_returns:
  assumes "shape0 (I s) = length (ravel (I s))" "k < length (ravel (I s))" "k < length V"
    and "update (x_k s) (P_k s) (ravel (I s) ! k) (V ! k) R = Inr (x', P')"
    and "reshape_2_2 P' = Inr P2" "k + 1 < length (P_hist s)"
    and "reshape_2 x' = Inr x2" "k + 1 < length (x_hist s)"
  shows "body V R k s =
           Inr (s\<lparr>I := Arr1 (ravel (I s)), x_k := x', P_k := P',
                  P_hist := (P_hist s)[k + 1 := P2], x_hist := (x_hist s)[k + 1 := x2]\<rparr>)"
  using assms
  by (auto simp add: body_def Let_def reshape1_def H_k_new_def item_def row_def update_Inr_iff)

lemma body_raises:
  assumes "shape0 (I s) = length (ravel (I s))" "k < length (ravel (I s))"
    and "update (x_k s) (P_k s) (ravel (I s) ! k) Vk R = Inl e"
  shows "body V R k s = Inl (e, s\<lparr>I := Arr1 (ravel (I s))\<rparr>)"
  using assms
  by (auto simp add: body_def Let_def reshape1_def H_k_new_def item_def update_Inl_iff)

lemma body_Inr_D:
  assumes "body V R k s = Inr s'"
  shows "shape0 (I s) = length (ravel (I s)) \<and> k < length (ravel (I s)) \<and> k < length V \<and>
         I s' = Arr1 (ravel (I s)) \<and>
         update (x_k s) (P_k s) (ravel (I s) ! k) (V ! k) R = Inr (x_k s', P_k s') \<and>
         k + 1 < length (P_hist s) \<and> k + 1 < length (x_hist s) \<and>
         reshape_2_2 (P_k s') = Inr (P_hist s' ! (k + 1)) \<and>
         reshape_2 (x_k s') = Inr (x_hist s' ! (k + 1)) \<and>
         P_hist s' = (P_hist s)[k + 1 := P_hist s' ! (k + 1)] \<and>
         x_hist s' = (x_hist s)[k + 1 := x_hist s' ! (k + 1)]"
  using assms
  by (auto simp add: body_def Let_def reshape1_def H_k_new_def item_def row_def update_Inr_iff
      split: sum.splits if_splits)

lemma body_Inl_D:
  assumes "body V R k s = Inl (e, s')"
  shows "x_hist s' = x_hist s \<and>
         (P_hist s' = P_hist s \<or> (\<exists>P2. P_hist s' = (P_hist s)[k + 1 := P2])) \<and>
         ravel (I s') = ravel (I s) \<and>
         ((x_k s' = x_k s \<and> P_k s' = P_k s) \<or>
          update (x_k s) (P_k s) (ravel (I s) ! k) (V ! k) R = Inr (x_k s', P_k s'))"
  using assms
  by (auto simp add: body_def Let_def reshape1_def H_k_new_def item_def row_def update_Inr_iff ravel_def
      split: sum.splits if_splits)

lemma loop_final_Cons:
  "final (loop V R (k # ks) s) =
     (case body V R k s of Inl es \<Rightarrow> snd es | Inr s' \<Rightarrow> final (loop V R ks s'))"
  by (simp add: final_def split: sum.splits prod.splits)

lemma loop_append:
  "loop V R (ks @ ks') s =
     (case loop V R ks s of Inl e \<Rightarrow> Inl e | Inr s' \<Rightarrow> loop V R ks' s')"
  by (induction ks arbitrary: s) (simp_all split: sum.splits)

subsection \<open>The notebook's run\<close>

lemma prepare_data: "prepare x_0 P_0 I_data = Inr s_0"
  by (simp add: prepare_def s_0_def Let_def I_data_def x_0_def P_0_def shape0_def
      reshape_2_def reshape_2_2_def numeral_eq_Suc)

lemma body_data_0:
  "body V_data [[9/400]] 0 s_0 =
     Inr \<lparr>I = Arr1 [1/5, 3/10, 2/5, 1/2, 3/5],
          x_k = [[6208/1165], [172/1165]],
          P_k = [[801/233, - (144/233)], [- (144/233), 153/1165]],
          x_hist = [[4, 0], [6208/1165, 172/1165], [0, 0], [0, 0], [0, 0], [0, 0]],
          P_hist = [[[9, 0], [0, 1/5]], [[801/233, - (144/233)], [- (144/233), 153/1165]],
                    [[0, 0], [0, 0]], [[0, 0], [0, 0]], [[0, 0], [0, 0]], [[0, 0], [0, 0]]]\<rparr>"
  by (simp add: body_def s_0_def I_data_def V_data_def x_0_def P_0_def Let_def reshape1_def
      H_k_new_def item_def row_def shape0_def ravel_def K_k_new_2 innov_def x_k_new_2 P_k_new_2
      reshape_2_def reshape_2_2_def)

lemma upt_5: "[0..<5] = [0, Suc 0, Suc (Suc 0), Suc (Suc (Suc 0)), Suc (Suc (Suc (Suc 0)))]"
  by (simp add: upt_conv_Cons)

lemma loop_data:
  "loop V_data R_noise [0..<5] s_0 =
     Inr \<lparr>I = Arr1 [1/5, 3/10, 2/5, 1/2, 3/5],
          x_k = [[488958/98245], [6844/98245]],
          P_k = [[3681/19649, - (1440/19649)], [- (1440/19649), 3249/98245]],
          x_hist = [[4, 0],
                    [6208/1165, 172/1165],
                    [3532/957, 1732/4785],
                    [7948/1785, 76/357],
                    [28046/6195, 1208/6195],
                    [488958/98245, 6844/98245]],
          P_hist = [[[9, 0], [0, 1/5]],
                    [[801/233, - (144/233)], [- (144/233), 153/1165]],
                    [[507/319, - (120/319)], [- (120/319), 159/1595]],
                    [[83/119, - (24/119)], [- (24/119), 39/595]],
                    [[141/413, - (48/413)], [- (48/413), 93/2065]],
                    [[3681/19649, - (1440/19649)], [- (1440/19649), 3249/98245]]]\<rparr>"
  unfolding upt_5
  by (simp add: body_def s_0_def I_data_def V_data_def x_0_def P_0_def R_noise_def Let_def
      reshape1_def H_k_new_def item_def row_def shape0_def ravel_def K_k_new_2 innov_def
      x_k_new_2 P_k_new_2 reshape_2_def reshape_2_2_def)

lemma loop_data_2:
  "loop V_data [[9/400]] [0, 1] s_0 =
     Inr \<lparr>I = Arr1 [1/5, 3/10, 2/5, 1/2, 3/5],
          x_k = [[3532/957], [1732/4785]],
          P_k = [[507/319, - (120/319)], [- (120/319), 159/1595]],
          x_hist = [[4, 0],
                    [6208/1165, 172/1165],
                    [3532/957, 1732/4785],
                    [0, 0],
                    [0, 0],
                    [0, 0]],
          P_hist = [[[9, 0], [0, 1/5]],
                    [[801/233, - (144/233)], [- (144/233), 153/1165]],
                    [[507/319, - (120/319)], [- (120/319), 159/1595]],
                    [[0, 0], [0, 0]],
                    [[0, 0], [0, 0]],
                    [[0, 0], [0, 0]]]\<rparr>"
  by (simp add: body_def s_0_def I_data_def V_data_def x_0_def P_0_def Let_def
      reshape1_def H_k_new_def item_def row_def shape0_def ravel_def K_k_new_2 innov_def
      x_k_new_2 P_k_new_2 reshape_2_def reshape_2_2_def)

lemma estimator_data:
  "estimator x_0 P_0 R_noise I_data V_data =
     Inr \<lparr>I = Arr1 [1/5, 3/10, 2/5, 1/2, 3/5],
          x_k = [[488958/98245], [6844/98245]],
          P_k = [[3681/19649, - (1440/19649)], [- (1440/19649), 3249/98245]],
          x_hist = [[4, 0],
                    [6208/1165, 172/1165],
                    [3532/957, 1732/4785],
                    [7948/1785, 76/357],
                    [28046/6195, 1208/6195],
                    [488958/98245, 6844/98245]],
          P_hist = [[[9, 0], [0, 1/5]],
                    [[801/233, - (144/233)], [- (144/233), 153/1165]],
                    [[507/319, - (120/319)], [- (120/319), 159/1595]],
                    [[83/119, - (24/119)], [- (24/119), 39/595]],
                    [[141/413, - (48/413)], [- (48/413), 93/2065]],
                    [[3681/19649, - (1440/19649)], [- (1440/19649), 3249/98245]]]\<rparr>"
proof -
  have "shape0 I_data = 5" by (simp add: I_data_def shape0_def)
  then show ?thesis
    by (simp add: estimator_def prepare_data loop_data)
qed

lemma recursive_solution_value:
  "\<exists>s. recursive_solution = Inr s \<and> x_k s = [[488958/98245], [6844/98245]] \<and>
       P_k s = [[3681/19649, - (1440/19649)], [- (1440/19649), 3249/98245]]"
proof -
  have "shape0 I_data = 5" by (simp add: I_data_def shape0_def)
  then show ?thesis
    by (simp add: recursive_solution_def estimator_def prepare_data loop_data)
qed

lemma batch_solution_value: "batch_solution I_data V_data = Inr [[497/100], [37/500]]"
proof -
  have H: "set_col0 (replicate 5 [1, 1]) (ravel I_data) =
             Inr [[1/5, 1], [3/10, 1], [2/5, 1], [1/2, 1], [3/5, 1]]"
    by (simp add: set_col0_def I_data_def ravel_def numeral_eq_Suc)
  show ?thesis
    unfolding batch_solution_def H
    by (simp add: V_data_def matmul_def dot_def)
qed

text \<open>
  Claim C1. On the notebook's data, prior and noise variance the recursive cell ends with
  \<open>R = 488958/98245\<close> and \<open>b = 6844/98245\<close>, which are within \<open>0.001\<close> of \<open>4.9769\<close> and
  \<open>0.0697\<close>; the batch cell gives \<open>R = 4.97\<close> and \<open>b = 0.074\<close>, and the two solutions
  differ by less than \<open>0.01\<close> in each component.
\<close>

theorem canonical_dataset_estimates:
  "\<exists>s x_ls. recursive_solution = Inr s \<and> batch_solution I_data V_data = Inr x_ls \<and>
     x_k s = [[488958/98245], [6844/98245]] \<and> x_ls = [[497/100], [37/500]] \<and>
     \<bar>x_k s ! 0 ! 0 - 49769/10000\<bar> \<le> 1/1000 \<and> \<bar>x_k s ! 1 ! 0 - 697/10000\<bar> \<le> 1/1000 \<and>
     \<bar>x_k s ! 0 ! 0 - x_ls ! 0 ! 0\<bar> \<le> 1/100 \<and> \<bar>x_k s ! 1 ! 0 - x_ls ! 1 ! 0\<bar> \<le> 1/100"
proof -
  from recursive_solution_value obtain s where
    s: "recursive_solution = Inr s" "x_k s = [[488958/98245], [6844/98245]]" by blast
  show ?thesis
    unfolding s batch_solution_value by (simp add: s(2))
qed

subsection \<open>The covariance along the loop\<close>

text \<open>
  Claim C3, as the specification states it, is about every positive semi-definite
  covariance and every positive noise variance. As numpy runs the update it fails: from
  the covariance 0, a measurement at the current 0 and the noise variance \<^verbatim>\<open>1e-320\<close> (a
  subnormal double), the innovation covariance is \<^verbatim>\<open>1e-320\<close>, its reciprocal overflows
  to an infinity, the gain is \<open>0 \<times> \<infinity>\<close>, which is NaN, and every entry of the new covariance
  is NaN, which is not below the entry 0 it replaces. Every operation but the reciprocal
  is exact here, so the order and the fusing of the products and sums play no part.
\<close>

theorem covariance_becomes_nan:
  "psd [[0, 0], [0, 0]] \<and>
   fl (1 / 10 ^ 320) = Finite (2024 / 2 ^ 1074) \<and> Finite 0 < Finite (2024 / 2 ^ 1074) \<and>
   update [[Finite 4], [Finite 0]] [[Finite 0, Finite 0], [Finite 0, Finite 0]] (Finite 0)
       [Finite 1] [[Finite (2024 / 2 ^ 1074)]] =
     Inr ([[NaN], [NaN]], [[NaN, NaN], [NaN, NaN]]) \<and>
   \<not> NaN \<le> Finite 0"
  by (simp add: psd_2 tiny_noise update_eval f64_eval cong: let_weak_cong)

text \<open>
  Claim C3, amended to exact arithmetic. One pass through the loop body from any state
  whose covariance is positive semi-definite, with any measurement and a positive noise
  variance, leaves each diagonal entry of \<^verbatim>\<open>P_k\<close> less than or equal to what it was
  before the pass, whether the pass completes or raises.
\<close>

theorem uncertainty_shrinks:
  assumes "psd (P_k s)" and "0 < nv"
  shows "P_k (final (body V [[nv]] k s)) ! 0 ! 0 \<le> P_k s ! 0 ! 0 \<and>
         P_k (final (body V [[nv]] k s)) ! 1 ! 1 \<le> P_k s ! 1 ! 1"
proof -
  from update_psd [OF assms, of "x_k s" "ravel (I s) ! k" "V ! k"] obtain x' P' where
    u: "update (x_k s) (P_k s) (ravel (I s) ! k) (V ! k) [[nv]] = Inr (x', P')"
    and le: "P' ! 0 ! 0 \<le> P_k s ! 0 ! 0" "P' ! 1 ! 1 \<le> P_k s ! 1 ! 1"
    by blast
  show ?thesis
  proof (cases "body V [[nv]] k s")
    case (Inr s')
    from body_Inr_D [OF Inr] u have "P_k s' = P'" by simp
    with le Inr show ?thesis by simp
  next
    case (Inl es)
    obtain e s' where es: "es = (e, s')" by (cases es)
    from body_Inl_D [OF Inl [unfolded es]] u have "P_k s' = P_k s \<or> P_k s' = P'" by auto
    with le Inl es show ?thesis by auto
  qed
qed

theorem uncertainty_shrinks_witness:
  "psd (P_k s_0) \<and> (0::real) < 9/400 \<and>
   P_k (final (body V_data [[9/400]] 0 s_0)) ! 0 ! 0 = 801/233 \<and> P_k s_0 ! 0 ! 0 = 9 \<and>
   P_k (final (body V_data [[9/400]] 0 s_0)) ! 1 ! 1 = 153/1165 \<and> P_k s_0 ! 1 ! 1 = 1/5 \<and>
   P_k (final (body V_data [[9/400]] 0 s_0)) ! 0 ! 0 \<le> P_k s_0 ! 0 ! 0 \<and>
   P_k (final (body V_data [[9/400]] 0 s_0)) ! 1 ! 1 \<le> P_k s_0 ! 1 ! 1"
proof -
  have p: "psd (P_k s_0)" by (simp add: s_0_def P_0_def psd_2)
  have n: "(0::real) < 9/400" by simp
  have v: "P_k s_0 ! 0 ! 0 = 9" "P_k s_0 ! 1 ! 1 = 1/5" by (simp_all add: s_0_def P_0_def)
  have w: "P_k (final (body V_data [[9/400]] 0 s_0)) ! 0 ! 0 = 801/233"
    "P_k (final (body V_data [[9/400]] 0 s_0)) ! 1 ! 1 = 153/1165"
    by (simp_all add: body_data_0)
  from uncertainty_shrinks [OF p n, of V_data 0] p n v w show ?thesis by blast
qed

lemma body_keeps_psd:
  assumes "psd (P_k s)" and "0 < nv"
  shows "psd (P_k (final (body V [[nv]] k s)))"
proof (cases "body V [[nv]] k s")
  case (Inr s')
  from body_Inr_D [OF Inr]
  have u: "update (x_k s) (P_k s) (ravel (I s) ! k) (V ! k) [[nv]] = Inr (x_k s', P_k s')"
    by simp
  from update_psd [OF assms, of "x_k s" "ravel (I s) ! k" "V ! k"] u Inr
  show ?thesis by auto
next
  case (Inl es)
  obtain e s' where es: "es = (e, s')" by (cases es)
  from body_Inl_D [OF Inl [unfolded es]]
  have "P_k s' = P_k s \<or>
        update (x_k s) (P_k s) (ravel (I s) ! k) (V ! k) [[nv]] = Inr (x_k s', P_k s')"
    by blast
  with update_psd [OF assms, of "x_k s" "ravel (I s) ! k" "V ! k"] assms(1) Inl es
  show ?thesis by auto
qed

text \<open>
  Claim C4. Starting from a symmetric positive semi-definite covariance, with a positive
  noise variance, the covariance \<^verbatim>\<open>P_k\<close> is symmetric and positive semi-definite after
  the loop has processed any sequence of indices, for every array of currents and of
  voltages, and also when the loop stops early with an exception.
\<close>

theorem covariance_stays_symmetric_psd:
  assumes "psd (P_k s)" and "0 < nv"
  shows "symmetric (P_k (final (loop V [[nv]] ks s))) \<and> psd (P_k (final (loop V [[nv]] ks s)))"
proof -
  have "psd (P_k (final (loop V [[nv]] ks s)))"
    using assms(1)
  proof (induction ks arbitrary: s)
    case Nil
    then show ?case by simp
  next
    case (Cons k ks)
    from body_keeps_psd [OF Cons.prems assms(2), of V k]
    have b: "psd (P_k (final (body V [[nv]] k s)))" .
    show ?case
    proof (cases "body V [[nv]] k s")
      case (Inl es)
      with b show ?thesis by (cases es) (simp add: loop_final_Cons)
    next
      case (Inr s')
      with b have "psd (P_k s')" by simp
      from Cons.IH [OF this] Inr show ?thesis by (simp add: loop_final_Cons)
    qed
  qed
  then show ?thesis by (simp add: psd_symmetric)
qed

theorem covariance_stays_symmetric_psd_witness:
  "psd (P_k s_0) \<and> (0::real) < 9/400 \<and>
   symmetric (P_k (final (loop V_data [[9/400]] [0, 1, 2, 3, 4] s_0))) \<and>
   psd (P_k (final (loop V_data [[9/400]] [0, 1, 2, 3, 4] s_0)))"
proof -
  have p: "psd (P_k s_0)" by (simp add: s_0_def P_0_def psd_2)
  have n: "(0::real) < 9/400" by simp
  from covariance_stays_symmetric_psd [OF p n] p n show ?thesis by blast
qed

subsection \<open>A single measurement at zero current\<close>




subsection \<open>A degenerate noise model\<close>

text \<open>
  Claim C6, as the specification states it, asks that an update with a noise variance
  that is not positive be rejected and leave the state as it is. The loop body has no
  such check: with the notebook's prior, its first measurement and the noise variance
  \<open>-1\<close>, the update returns a new estimate and a new covariance.
\<close>

theorem nonpositive_noise_is_not_rejected:
  "update x_0 P_0 (1/5) [123/100] [[- 1]] =
     Inr ([[493/220], [- (43/220)]], [[180/11, 9/11], [9/11, 16/55]])"
  by (simp add: x_0_def P_0_def update_def Let_def K_k_new_2 innov_def x_k_new_2 P_k_new_2)

text \<open>
  Claim C6, amended to what the loop body does. It calls \<^verbatim>\<open>np.linalg.inv\<close> on the
  innovation covariance without any test. When that 1 x 1 array is exactly zero, \<^verbatim>\<open>inv\<close>
  raises \<^verbatim>\<open>LinAlgError\<close> before \<^verbatim>\<open>x_k\<close> or \<^verbatim>\<open>P_k\<close> is assigned, so the estimate, the
  covariance and both histories are as before the pass (only \<^verbatim>\<open>I\<close> has been reshaped).
  For every other value, whatever the sign of the noise variance, the update is carried
  out as the six steps describe and recorded in the histories.
\<close>

theorem inversion_is_unguarded:
  assumes "shape0 (I s) = length (ravel (I s))" and "k < length (ravel (I s))"
    and "k < length V" and "V ! k = [v]"
    and "x_k s = of_vec2 x" and "P_k s = of_mat2 P"
    and "k + 1 < length (P_hist s)" and "k + 1 < length (x_hist s)"
  shows "body V [[nv]] k s =
     (if spec_S P (spec_H (ravel (I s) ! k)) nv = 0
      then Inl (LinAlgError, s\<lparr>I := Arr1 (ravel (I s))\<rparr>)
      else Inr (s\<lparr>I := Arr1 (ravel (I s)),
                  x_k := of_vec2 (fst (spec_update x P (ravel (I s) ! k) v nv)),
                  P_k := of_mat2 (snd (spec_update x P (ravel (I s) ! k) v nv)),
                  P_hist := (P_hist s)[k + 1 := of_mat2 (snd (spec_update x P (ravel (I s) ! k) v nv))],
                  x_hist := (x_hist s)[k + 1 :=
                     concat (of_vec2 (fst (spec_update x P (ravel (I s) ! k) v nv)))]\<rparr>))"
proof (cases "spec_S P (spec_H (ravel (I s) ! k)) nv = 0")
  case True
  obtain a b c d where P: "P = ((a, b), (c, d))" by (cases P) auto
  from True have "innov a b c d (ravel (I s) ! k) nv = 0"
    by (simp add: P spec_H_def spec_S_innov)
  then have "update (x_k s) (P_k s) (ravel (I s) ! k) [v] [[nv]] = Inl LinAlgError"
    unfolding assms(6) P of_mat2_def by (simp add: update_raises)
  from body_raises [OF assms(1,2) this] True show ?thesis by simp
next
  case False
  let ?r = "spec_update x P (ravel (I s) ! k) v nv"
  from update_spec_update [OF False, of x v]
  have u: "update (x_k s) (P_k s) (ravel (I s) ! k) (V ! k) [[nv]] =
             Inr (of_vec2 (fst ?r), of_mat2 (snd ?r))"
    by (simp add: assms(4,5,6))
  have r2: "reshape_2 (of_vec2 (fst ?r)) = Inr (concat (of_vec2 (fst ?r)))"
    by (simp add: reshape_2_def of_vec2_def)
  have r22: "reshape_2_2 (of_mat2 (snd ?r)) = Inr (of_mat2 (snd ?r))"
    by (simp add: reshape_2_2_def of_mat2_def)
  from body_returns [OF assms(1,2,3) u r22 assms(7) r2 assms(8)] False
  show ?thesis by simp
qed

theorem inversion_is_unguarded_witness:
  "shape0 (I s_0) = length (ravel (I s_0)) \<and> 0 < length (ravel (I s_0)) \<and>
   0 < length V_data \<and> V_data ! 0 = [123/100] \<and>
   x_k s_0 = of_vec2 (4, 0) \<and> P_k s_0 = of_mat2 ((9, 0), (0, 1/5)) \<and>
   0 + 1 < length (P_hist s_0) \<and> 0 + 1 < length (x_hist s_0) \<and>
   spec_S ((9, 0), (0, 1/5)) (spec_H (ravel (I s_0) ! 0)) (- (14/25)) = 0 \<and>
   body V_data [[- (14/25)]] 0 s_0 = Inl (LinAlgError, s_0\<lparr>I := Arr1 (ravel (I s_0))\<rparr>)"
proof -
  have 1: "shape0 (I s_0) = length (ravel (I s_0))"
    by (simp add: s_0_def I_data_def shape0_def ravel_def)
  have 2: "0 < length (ravel (I s_0))"
    by (simp add: s_0_def I_data_def ravel_def)
  have 3: "0 < length V_data" by (simp add: V_data_def)
  have 4: "V_data ! 0 = [123/100]" by (simp add: V_data_def)
  have 5: "x_k s_0 = of_vec2 (4, 0)" by (simp add: s_0_def x_0_def of_vec2_def)
  have 6: "P_k s_0 = of_mat2 ((9, 0), (0, 1/5))" by (simp add: s_0_def P_0_def of_mat2_def)
  have 7: "0 + 1 < length (P_hist s_0)" by (simp add: s_0_def)
  have 8: "0 + 1 < length (x_hist s_0)" by (simp add: s_0_def)
  have 9: "spec_S ((9, 0), (0, 1/5)) (spec_H (ravel (I s_0) ! 0)) (- (14/25)) = 0"
    by (simp add: spec_S_def spec_H_def s_0_def I_data_def ravel_def)
  from inversion_is_unguarded [OF 1 2 3 4 5 6 7 8, of "- (14/25)"] 1 2 3 4 5 6 7 8 9
  show ?thesis by simp
qed

subsection \<open>The array of currents\<close>

lemma body_final_ravel: "ravel (I (final (body V R k s))) = ravel (I s)"
proof (cases "body V R k s")
  case (Inl es)
  obtain e s' where es: "es = (e, s')" by (cases es)
  from body_Inl_D [OF Inl [unfolded es]] Inl es show ?thesis by simp
next
  case (Inr s')
  from body_Inr_D [OF Inr] Inr show ?thesis by (simp add: ravel_def)
qed

lemma loop_final_ravel: "ravel (I (final (loop V R ks s))) = ravel (I s)"
proof (induction ks arbitrary: s)
  case Nil
  show ?case by simp
next
  case (Cons k ks)
  show ?case
  proof (cases "body V R k s")
    case (Inl es)
    with body_final_ravel [of V R k s] show ?thesis
      by (cases es) (simp add: loop_final_Cons)
  next
    case (Inr s')
    with body_final_ravel [of V R k s] Cons.IH [of s'] show ?thesis
      by (simp add: loop_final_Cons)
  qed
qed

lemma reshape1_column:
  "reshape1 (shape0 (Arr2 (map (\<lambda>i. [i]) xs))) (Arr2 (map (\<lambda>i. [i]) xs)) = Inr (Arr1 xs)"
proof -
  have "concat (map (\<lambda>i. [i]) xs) = xs" by (induction xs) simp_all
  then show ?thesis by (simp add: reshape1_def shape0_def ravel_def)
qed

lemma concat_column: "concat (map (\<lambda>i. [i]) xs) = xs"
  by (induction xs) simp_all

text \<open>
  Claim C9. The reshape at the top of every pass keeps the entries of \<^verbatim>\<open>I\<close>: an n x 1
  column becomes the flat array of the same entries, and whatever passes have been made
  and however the loop ends, the entries of \<^verbatim>\<open>I\<close> are those it had on entry. So in the
  pass at index \<open>k\<close>, after any earlier passes, the observation row is built from entry
  \<open>k\<close> of the array as it was loaded: \<open>H_k = [[I[k], 1]]\<close>, and the update of that pass is
  the update at that row.
\<close>

theorem reshape_keeps_the_currents:
  "reshape1 (shape0 (Arr2 (map (\<lambda>i. [i]) xs))) (Arr2 (map (\<lambda>i. [i]) xs)) = Inr (Arr1 xs) \<and>
   ravel (I (final (loop V R ks s))) = ravel (I s) \<and>
   (\<forall>s'. loop V R (ks @ [k]) s = Inr s' \<longrightarrow>
      k < length (ravel (I s)) \<and> I s' = Arr1 (ravel (I s)) \<and>
      H_k_new (I s') k = Inr [[ravel (I s) ! k, 1]] \<and>
      (\<exists>s1. loop V R ks s = Inr s1 \<and>
         update (x_k s1) (P_k s1) (ravel (I s) ! k) (V ! k) R = Inr (x_k s', P_k s')))"
proof (intro conjI allI impI)
  show "reshape1 (shape0 (Arr2 (map (\<lambda>i. [i]) xs))) (Arr2 (map (\<lambda>i. [i]) xs)) = Inr (Arr1 xs)"
    by (rule reshape1_column)
  show "ravel (I (final (loop V R ks s))) = ravel (I s)"
    by (rule loop_final_ravel)
next
  fix s'
  assume l: "loop V R (ks @ [k]) s = Inr s'"
  then obtain s1 where s1: "loop V R ks s = Inr s1" and b: "body V R k s1 = Inr s'"
    by (auto simp add: loop_append split: sum.splits)
  from loop_final_ravel [of V R ks s] s1 have r: "ravel (I s1) = ravel (I s)" by simp
  note D = body_Inr_D [OF b, unfolded r]
  from D show "k < length (ravel (I s))" by simp
  from D show "I s' = Arr1 (ravel (I s))" by simp
  from D show "H_k_new (I s') k = Inr [[ravel (I s) ! k, 1]]"
    by (simp add: H_k_new_def item_def)
  from D s1 show "\<exists>s1. loop V R ks s = Inr s1 \<and>
         update (x_k s1) (P_k s1) (ravel (I s) ! k) (V ! k) R = Inr (x_k s', P_k s')"
    by blast
qed

theorem reshape_keeps_the_currents_witness:
  "reshape1 (shape0 (Arr2 (map (\<lambda>i. [i]) [1/5, 3/10, 2/5, 1/2, 3/5])))
      (Arr2 (map (\<lambda>i. [i]) [1/5, 3/10, 2/5, 1/2, 3/5])) = Inr (Arr1 [1/5, 3/10, 2/5, 1/2, 3/5]) \<and>
   ravel (I (final (loop V_data [[9/400]] [0] s_0))) = ravel (I s_0) \<and>
   (\<exists>s'. loop V_data [[9/400]] ([0] @ [1]) s_0 = Inr s' \<and>
      1 < length (ravel (I s_0)) \<and> I s' = Arr1 (ravel (I s_0)) \<and>
      ravel (I s_0) = [1/5, 3/10, 2/5, 1/2, 3/5] \<and>
      H_k_new (I s') 1 = Inr [[3/10, 1]] \<and>
      (\<exists>s1. loop V_data [[9/400]] [0] s_0 = Inr s1 \<and>
         update (x_k s1) (P_k s1) (3/10) (V_data ! 1) [[9/400]] = Inr (x_k s', P_k s')))"
proof -
  have r: "ravel (I s_0) = [1/5, 3/10, 2/5, 1/2, 3/5]"
    by (simp add: s_0_def I_data_def ravel_def)
  from reshape_keeps_the_currents
    [of "[1/5, 3/10, 2/5, 1/2, 3/5]" V_data "[[9/400]]" "[0]" s_0 1] loop_data_2 r
  show ?thesis by simp
qed

subsection \<open>The histories\<close>










subsection \<open>Two updates in a row\<close>

lemma second_innov:
  fixes a b d i j nv s :: real
  assumes "s \<noteq> 0"
  shows "innov ((dt + a * nv) / s) ((b * nv - i * dt) / s) ((b * nv - i * dt) / s)
           ((dt * i * i + d * nv) / s) j nv
         = (dt * ((i - j) * (i - j)) + nv * (s + innov a b b d j nv - nv)) / s"
  using assms by (simp add: innov_def field_simps)

lemma second_cov:
  fixes a b d i j nv s D dt :: real
  assumes "s \<noteq> 0" "D \<noteq> 0"
  shows "(dt * nv / s + (dt + a * nv) / s * nv) / (D / s) = nv * (2 * dt + a * nv) / D"
    and "((b * nv - i * dt) / s * nv - j * (dt * nv / s)) / (D / s) = nv * (b * nv - (i + j) * dt) / D"
    and "(dt * nv / s * j * j + (dt * i * i + d * nv) / s * nv) / (D / s)
           = nv * (dt * (i * i + j * j) + d * nv) / D"
  using assms by (simp_all add: field_simps)

lemma key_x0:
  fixes a b d i j nv :: real
  shows "(a * i + b) * ((a * d - b * b) * ((i - j) * (i - j))
            + nv * ((a * i * i + 2 * b * i + d + nv) + (a * j * j + 2 * b * j + d + nv) - nv))
         - (a * i * j + b * (i + j) + d) * ((a * d - b * b) * (j - i) + nv * (a * j + b))
       = (a * i * i + 2 * b * i + d + nv) * ((a * d - b * b) * (i - j) + nv * (a * i + b))"
  by (simp add: algebra_simps)

lemma key_x1:
  fixes a b d i j nv :: real
  shows "(b * i + d) * ((a * d - b * b) * ((i - j) * (i - j))
            + nv * ((a * i * i + 2 * b * i + d + nv) + (a * j * j + 2 * b * j + d + nv) - nv))
         - (a * i * j + b * (i + j) + d) * ((a * d - b * b) * i * (i - j) + nv * (b * j + d))
       = (a * i * i + 2 * b * i + d + nv) * ((a * d - b * b) * j * (j - i) + nv * (b * i + d))"
  by (simp add: algebra_simps)

lemma second_x:
  fixes p A B c ri rj s D x :: real
  assumes s: "s \<noteq> 0" and D: "D \<noteq> 0" and key: "p * D - c * A = s * B"
  shows "x + p * ri / s + (A / s) * (rj - c * ri / s) / (D / s) = x + (B * ri + A * rj) / D"
proof -
  have "p * ri / s + (A / s) * (rj - c * ri / s) / (D / s)
          = (p * D * ri + A * (s * rj - c * ri)) / (s * D)"
    using s D by (simp add: field_simps)
  also have "p * D * ri + A * (s * rj - c * ri) = (p * D - c * A) * ri + A * s * rj"
    by (simp add: algebra_simps)
  also have "\<dots> = s * (B * ri + A * rj)"
    unfolding key by (simp add: algebra_simps)
  also have "s * (B * ri + A * rj) / (s * D) = (B * ri + A * rj) / D"
    using s by simp
  finally show ?thesis by simp
qed

lemma two_updates:
  fixes a b d i j nv x0 x1 v w D :: real
  assumes psd: "0 \<le> a" "0 \<le> d" "b * b \<le> a * d" and nv: "0 < nv"
    and D: "D = (a * d - b * b) * ((i - j) * (i - j))
                + nv * (innov a b b d i nv + innov a b b d j nv - nv)"
  shows "\<exists>x' P'. update [[x0], [x1]] [[a, b], [b, d]] i [v] [[nv]] = Inr (x', P') \<and> psd P' \<and>
     update x' P' j [w] [[nv]] =
       Inr ([[x0 + (((a * d - b * b) * (i - j) + nv * (a * i + b)) * (v - (i * x0 + x1))
                   + ((a * d - b * b) * (j - i) + nv * (a * j + b)) * (w - (j * x0 + x1))) / D],
             [x1 + (((a * d - b * b) * j * (j - i) + nv * (b * i + d)) * (v - (i * x0 + x1))
                   + ((a * d - b * b) * i * (i - j) + nv * (b * j + d)) * (w - (j * x0 + x1))) / D]],
            [[nv * (2 * (a * d - b * b) + a * nv) / D,
              nv * (b * nv - (i + j) * (a * d - b * b)) / D],
             [nv * (b * nv - (i + j) * (a * d - b * b)) / D,
              nv * ((a * d - b * b) * (i * i + j * j) + d * nv) / D]])"
proof -
  define dt where "dt = a * d - b * b"
  define s where "s = innov a b b d i nv"
  define ri where "ri = v - (i * x0 + x1)"
  define rj where "rj = w - (j * x0 + x1)"
  define a' where "a' = (dt + a * nv) / s"
  define b' where "b' = (b * nv - i * dt) / s"
  define d' where "d' = (dt * i * i + d * nv) / s"
  define x0' where "x0' = x0 + (a * i + b) * ri / s"
  define x1' where "x1' = x1 + (b * i + d) * ri / s"
  define c where "c = a * i * j + b * (i + j) + d"
  have pos: "0 < s" unfolding s_def by (rule innov_pos [OF psd nv])
  then have nz: "innov a b b d i nv \<noteq> 0" and snz: "s \<noteq> 0" by (simp_all add: s_def)
  have se: "s = a * i * i + 2 * b * i + d + nv"
    by (simp add: s_def innov_def algebra_simps)
  have sje: "innov a b b d j nv = a * j * j + 2 * b * j + d + nv"
    by (simp add: innov_def algebra_simps)
  have first: "update [[x0], [x1]] [[a, b], [b, d]] i [v] [[nv]] =
                 Inr ([[x0'], [x1']], [[a', b'], [b', d']])"
    unfolding update_sym [OF nz] x0'_def x1'_def a'_def b'_def d'_def dt_def ri_def s_def ..
  have psd': "psd [[a', b'], [b', d']]"
    unfolding a'_def b'_def d'_def dt_def s_def by (rule update_keeps_psd [OF psd nv])
  then have p': "0 \<le> a'" "0 \<le> d'" "b' * b' \<le> a' * d'" by (simp_all add: psd_2)
  define s' where "s' = innov a' b' b' d' j nv"
  have pos': "0 < s'" unfolding s'_def by (rule innov_pos [OF p' nv])
  then have nz': "innov a' b' b' d' j nv \<noteq> 0" by (simp add: s'_def)
  have "s' = (dt * ((i - j) * (i - j)) + nv * (s + innov a b b d j nv - nv)) / s"
    unfolding s'_def a'_def b'_def d'_def by (rule second_innov [OF snz])
  also have "dt * ((i - j) * (i - j)) + nv * (s + innov a b b d j nv - nv) = D"
    by (simp add: D dt_def s_def)
  finally have s'e: "s' = D / s" .
  have Dnz: "D \<noteq> 0"
  proof
    assume "D = 0"
    with s'e pos' show False by simp
  qed
  have det': "a' * d' - b' * b' = dt * nv / s"
    unfolding a'_def b'_def d'_def dt_def
    by (rule cov_new_det [OF s_def snz])
  have A: "a' * j + b' = (dt * (j - i) + nv * (a * j + b)) / s"
    using snz by (simp add: a'_def b'_def field_simps)
  have A1: "b' * j + d' = (dt * i * (i - j) + nv * (b * j + d)) / s"
    using snz by (simp add: b'_def d'_def field_simps)
  have res: "w - (j * x0' + x1') = rj - c * ri / s"
    using snz by (simp add: x0'_def x1'_def rj_def c_def field_simps)
  have De: "D = dt * ((i - j) * (i - j))
              + nv * ((a * i * i + 2 * b * i + d + nv) + (a * j * j + 2 * b * j + d + nv) - nv)"
    unfolding D dt_def s_def [symmetric] sje se ..
  have k0: "(a * i + b) * D - c * (dt * (j - i) + nv * (a * j + b))
              = s * (dt * (i - j) + nv * (a * i + b))"
    unfolding De se c_def dt_def by (rule key_x0)
  have k1: "(b * i + d) * D - c * (dt * i * (i - j) + nv * (b * j + d))
              = s * (dt * j * (j - i) + nv * (b * i + d))"
    unfolding De se c_def dt_def by (rule key_x1)
  have X0: "x0' + (a' * j + b') * (w - (j * x0' + x1')) / s'
              = x0 + ((dt * (i - j) + nv * (a * i + b)) * ri
                      + (dt * (j - i) + nv * (a * j + b)) * rj) / D"
  proof -
    have "x0' + (a' * j + b') * (w - (j * x0' + x1')) / s'
            = x0' + (dt * (j - i) + nv * (a * j + b)) / s * (rj - c * ri / s) / (D / s)"
      by (simp only: A res s'e)
    also have "\<dots> = x0 + ((dt * (i - j) + nv * (a * i + b)) * ri
                      + (dt * (j - i) + nv * (a * j + b)) * rj) / D"
      unfolding x0'_def by (rule second_x [OF snz Dnz k0])
    finally show ?thesis .
  qed
  have X1: "x1' + (b' * j + d') * (w - (j * x0' + x1')) / s'
              = x1 + ((dt * j * (j - i) + nv * (b * i + d)) * ri
                      + (dt * i * (i - j) + nv * (b * j + d)) * rj) / D"
  proof -
    have "x1' + (b' * j + d') * (w - (j * x0' + x1')) / s'
            = x1' + (dt * i * (i - j) + nv * (b * j + d)) / s * (rj - c * ri / s) / (D / s)"
      by (simp only: A1 res s'e)
    also have "\<dots> = x1 + ((dt * j * (j - i) + nv * (b * i + d)) * ri
                      + (dt * i * (i - j) + nv * (b * j + d)) * rj) / D"
      unfolding x1'_def by (rule second_x [OF snz Dnz k1])
    finally show ?thesis .
  qed
  have P0: "(a' * d' - b' * b' + a' * nv) / s' = nv * (2 * dt + a * nv) / D"
  proof -
    have "(a' * d' - b' * b' + a' * nv) / s' = (dt * nv / s + a' * nv) / (D / s)"
      by (simp only: det' s'e)
    also have "\<dots> = nv * (2 * dt + a * nv) / D"
      unfolding a'_def by (rule second_cov(1) [OF snz Dnz])
    finally show ?thesis .
  qed
  have P1: "(b' * nv - j * (a' * d' - b' * b')) / s' = nv * (b * nv - (i + j) * dt) / D"
  proof -
    have "(b' * nv - j * (a' * d' - b' * b')) / s' = (b' * nv - j * (dt * nv / s)) / (D / s)"
      by (simp only: det' s'e)
    also have "\<dots> = nv * (b * nv - (i + j) * dt) / D"
      unfolding b'_def by (rule second_cov(2) [OF snz Dnz])
    finally show ?thesis .
  qed
  have P2: "((a' * d' - b' * b') * j * j + d' * nv) / s' = nv * (dt * (i * i + j * j) + d * nv) / D"
  proof -
    have "((a' * d' - b' * b') * j * j + d' * nv) / s' = (dt * nv / s * j * j + d' * nv) / (D / s)"
      by (simp only: det' s'e)
    also have "\<dots> = nv * (dt * (i * i + j * j) + d * nv) / D"
      unfolding d'_def by (rule second_cov(3) [OF snz Dnz])
    finally show ?thesis .
  qed
  have second: "update [[x0'], [x1']] [[a', b'], [b', d']] j [w] [[nv]] =
       Inr ([[x0 + ((dt * (i - j) + nv * (a * i + b)) * ri
                      + (dt * (j - i) + nv * (a * j + b)) * rj) / D],
             [x1 + ((dt * j * (j - i) + nv * (b * i + d)) * ri
                      + (dt * i * (i - j) + nv * (b * j + d)) * rj) / D]],
            [[nv * (2 * dt + a * nv) / D, nv * (b * nv - (i + j) * dt) / D],
             [nv * (b * nv - (i + j) * dt) / D, nv * (dt * (i * i + j * j) + d * nv) / D]])"
    unfolding update_sym [OF nz'] s'_def [symmetric] X0 X1 P0 P1 P2 ..
  from first psd' second show ?thesis
    unfolding dt_def ri_def rj_def by blast
qed

subsection \<open>The loop as a fold of the update\<close>

lemma two_by_one:
  assumes "map length x = [1, 1]"
  obtains x0 x1 :: real where "x = [[x0], [x1]]"
proof -
  from assms obtain r0 r1 where x: "x = [r0, r1]" and l: "length r0 = 1" "length r1 = 1"
    by (auto simp add: map_eq_Cons_conv)
  from l obtain x0 x1 where "r0 = [x0]" "r1 = [x1]"
    by (auto simp add: length_Suc_conv)
  with x that show thesis by simp
qed

lemma body_ready:
  assumes r: "ready cs s" and nv: "0 < nv" and k: "k < length cs"
    and V: "length vs = length cs"
  shows "\<exists>s'. body (map (\<lambda>v. [v]) vs) [[nv]] k s = Inr s' \<and> ready cs s' \<and>
           Inr (x_k s', P_k s') = process nv (cs ! k, vs ! k) (Inr (x_k s, P_k s))"
proof -
  from r have I: "ravel (I s) = cs" "shape0 (I s) = length (ravel (I s))"
    and h: "k + 1 < length (P_hist s)" "k + 1 < length (x_hist s)"
    and x: "map length (x_k s) = [1, 1]" and P: "psd (P_k s)"
    using k by (simp_all add: ready_def)
  from x obtain x0 x1 where xe: "x_k s = [[x0], [x1]]" by (rule two_by_one)
  from P obtain a b d where
    Pe: "P_k s = [[a, b], [b, d]]" and p: "0 \<le> a" "0 \<le> d" "b * b \<le> a * d"
    by (rule psdE)
  have "0 < innov a b b d (cs ! k) nv" by (rule innov_pos [OF p nv])
  then have nz: "innov a b b d (cs ! k) nv \<noteq> 0" by simp
  let ?v = "vs ! k"
  let ?s = "innov a b b d (cs ! k) nv"
  let ?x = "[[x0 + (a * (cs ! k) + b) * (?v - ((cs ! k) * x0 + x1)) / ?s],
             [x1 + (b * (cs ! k) + d) * (?v - ((cs ! k) * x0 + x1)) / ?s]]"
  let ?P = "[[(a * d - b * b + a * nv) / ?s, (b * nv - (cs ! k) * (a * d - b * b)) / ?s],
             [(b * nv - (cs ! k) * (a * d - b * b)) / ?s,
              ((a * d - b * b) * (cs ! k) * (cs ! k) + d * nv) / ?s]]"
  have u: "update (x_k s) (P_k s) (cs ! k) [?v] [[nv]] = Inr (?x, ?P)"
    unfolding xe Pe by (rule update_sym [OF nz])
  have psd': "psd ?P" by (rule update_keeps_psd [OF p nv])
  have kV: "k < length (map (\<lambda>v. [v]) vs)" "map (\<lambda>v. [v]) vs ! k = [?v]"
    using k V by simp_all
  have r22: "reshape_2_2 ?P = Inr ?P" by (simp add: reshape_2_2_def)
  have r2: "reshape_2 ?x = Inr (concat ?x)" by (simp add: reshape_2_def)
  have b: "body (map (\<lambda>v. [v]) vs) [[nv]] k s =
          Inr (s\<lparr>I := Arr1 (ravel (I s)), x_k := ?x, P_k := ?P,
                 P_hist := (P_hist s)[k + 1 := ?P], x_hist := (x_hist s)[k + 1 := concat ?x]\<rparr>)"
    by (rule body_returns [OF I(2) _ kV(1) _ r22 h(1) r2 h(2)])
       (use k I u kV in simp_all)
  have "ready cs (s\<lparr>I := Arr1 (ravel (I s)), x_k := ?x, P_k := ?P,
                 P_hist := (P_hist s)[k + 1 := ?P], x_hist := (x_hist s)[k + 1 := concat ?x]\<rparr>)"
    using r psd' by (simp add: ready_def ravel_def shape0_def)
  with b u show ?thesis by (simp add: process_def)
qed

lemma loop_ready:
  assumes nv: "0 < nv" and V: "length vs = length cs"
  shows "ready cs s \<Longrightarrow> \<forall>k \<in> set ks. k < length cs \<Longrightarrow>
         \<exists>s'. loop (map (\<lambda>v. [v]) vs) [[nv]] ks s = Inr s' \<and> ready cs s' \<and>
           Inr (x_k s', P_k s') =
             fold (process nv) (map (\<lambda>k. (cs ! k, vs ! k)) ks) (Inr (x_k s, P_k s))"
proof (induction ks arbitrary: s)
  case Nil
  then show ?case by simp
next
  case (Cons k ks)
  from Cons.prems(2) have k: "k < length cs" by simp
  from body_ready [OF Cons.prems(1) nv k V] obtain s1 where
    b: "body (map (\<lambda>v. [v]) vs) [[nv]] k s = Inr s1" and r1: "ready cs s1"
    and p: "Inr (x_k s1, P_k s1) = process nv (cs ! k, vs ! k) (Inr (x_k s, P_k s))"
    by blast
  from Cons.IH [OF r1] Cons.prems(2) obtain s' where
    "loop (map (\<lambda>v. [v]) vs) [[nv]] ks s1 = Inr s'" "ready cs s'"
    "Inr (x_k s', P_k s') =
       fold (process nv) (map (\<lambda>k. (cs ! k, vs ! k)) ks) (Inr (x_k s1, P_k s1))"
    by auto
  with b p show ?case by simp
qed

lemma zip_by_index:
  assumes "length vs = length cs"
  shows "map (\<lambda>k. (cs ! k, vs ! k)) [0..<length cs] = zip cs vs"
  using assms by (intro nth_equalityI) simp_all

lemma estimator_fold:
  assumes P: "psd P0" and nv: "0 < nv" and V: "length vs = length cs"
  shows "\<exists>s. estimator [[R], [b]] P0 [[nv]] (Arr2 (map (\<lambda>i. [i]) cs)) (map (\<lambda>v. [v]) vs) = Inr s \<and>
           Inr (x_k s, P_k s) = fold (process nv) (zip cs vs) (Inr ([[R], [b]], P0))"
proof -
  let ?I = "Arr2 (map (\<lambda>i. [i]) cs)"
  from P obtain a c d where Pe: "P0 = [[a, c], [c, d]]" by (rule psdE)
  have n: "shape0 ?I = length cs" by (simp add: shape0_def)
  obtain s0 where p: "prepare [[R], [b]] P0 ?I = Inr s0" and s0: "x_k s0 = [[R], [b]]" "P_k s0 = P0"
    "I s0 = ?I" "length (x_hist s0) = length cs + 1" "length (P_hist s0) = length cs + 1"
    by (simp add: prepare_def Let_def reshape_2_def reshape_2_2_def Pe n)
  have r: "ready cs s0"
    using s0 P by (simp add: ready_def ravel_def shape0_def concat_column)
  from loop_ready [OF nv V r, of "[0..<length cs]"] obtain s where
    "loop (map (\<lambda>v. [v]) vs) [[nv]] [0..<length cs] s0 = Inr s"
    "Inr (x_k s, P_k s) =
       fold (process nv) (map (\<lambda>k. (cs ! k, vs ! k)) [0..<length cs]) (Inr (x_k s0, P_k s0))"
    by auto
  then show ?thesis
    by (simp add: estimator_def p n zip_by_index [OF V] s0)
qed

subsection \<open>Two measurements in either order\<close>

lemma process_good:
  assumes "psd P" and "0 < nv"
  shows "\<exists>y0 y1 P'. process nv m (Inr ([[x0], [x1]], P)) = Inr ([[y0], [y1]], P') \<and> psd P'"
proof -
  from assms(1) obtain a b d where
    Pe: "P = [[a, b], [b, d]]" and p: "0 \<le> a" "0 \<le> d" "b * b \<le> a * d"
    by (rule psdE)
  have "0 < innov a b b d (fst m) nv" by (rule innov_pos [OF p assms(2)])
  then have nz: "innov a b b d (fst m) nv \<noteq> 0" by simp
  from update_sym [OF nz, of x0 x1 "snd m"] update_keeps_psd [OF p assms(2), of "fst m"]
  show ?thesis by (simp add: process_def Pe)
qed

lemma process_commute:
  assumes P: "psd P" and nv: "0 < nv"
  shows "process nv m1 (process nv m2 (Inr ([[x0], [x1]], P))) =
         process nv m2 (process nv m1 (Inr ([[x0], [x1]], P)))"
proof -
  from P obtain a b d where
    Pe: "P = [[a, b], [b, d]]" and p: "0 \<le> a" "0 \<le> d" "b * b \<le> a * d"
    by (rule psdE)
  obtain i v where m1: "m1 = (i, v)" by (cases m1)
  obtain j w where m2: "m2 = (j, w)" by (cases m2)
  define D where "D = (a * d - b * b) * ((i - j) * (i - j))
                + nv * (innov a b b d i nv + innov a b b d j nv - nv)"
  have D': "D = (a * d - b * b) * ((j - i) * (j - i))
                + nv * (innov a b b d j nv + innov a b b d i nv - nv)"
    by (simp add: D_def algebra_simps)
  from two_updates [OF p nv D_def, of x0 x1 v w]
  have 1: "process nv m2 (process nv m1 (Inr ([[x0], [x1]], P))) =
       Inr ([[x0 + (((a * d - b * b) * (i - j) + nv * (a * i + b)) * (v - (i * x0 + x1))
                   + ((a * d - b * b) * (j - i) + nv * (a * j + b)) * (w - (j * x0 + x1))) / D],
             [x1 + (((a * d - b * b) * j * (j - i) + nv * (b * i + d)) * (v - (i * x0 + x1))
                   + ((a * d - b * b) * i * (i - j) + nv * (b * j + d)) * (w - (j * x0 + x1))) / D]],
            [[nv * (2 * (a * d - b * b) + a * nv) / D,
              nv * (b * nv - (i + j) * (a * d - b * b)) / D],
             [nv * (b * nv - (i + j) * (a * d - b * b)) / D,
              nv * ((a * d - b * b) * (i * i + j * j) + d * nv) / D]])"
    by (auto simp add: process_def Pe m1 m2)
  from two_updates [OF p nv D', of x0 x1 w v]
  have 2: "process nv m1 (process nv m2 (Inr ([[x0], [x1]], P))) =
       Inr ([[x0 + (((a * d - b * b) * (j - i) + nv * (a * j + b)) * (w - (j * x0 + x1))
                   + ((a * d - b * b) * (i - j) + nv * (a * i + b)) * (v - (i * x0 + x1))) / D],
             [x1 + (((a * d - b * b) * i * (i - j) + nv * (b * j + d)) * (w - (j * x0 + x1))
                   + ((a * d - b * b) * j * (j - i) + nv * (b * i + d)) * (v - (i * x0 + x1))) / D]],
            [[nv * (2 * (a * d - b * b) + a * nv) / D,
              nv * (b * nv - (j + i) * (a * d - b * b)) / D],
             [nv * (b * nv - (j + i) * (a * d - b * b)) / D,
              nv * ((a * d - b * b) * (j * j + i * i) + d * nv) / D]])"
    by (auto simp add: process_def Pe m1 m2)
  show ?thesis
    unfolding 1 2 by (simp add: add.commute)
qed

lemma fold_process_permuted:
  assumes P: "psd P0" and nv: "0 < nv" and perm: "mset ms = mset ms'"
  shows "fold (process nv) ms (Inr ([[R], [b]], P0)) = fold (process nv) ms' (Inr ([[R], [b]], P0))"
proof -
  let ?good = "\<lambda>z :: error + mat \<times> mat. \<exists>y0 y1 P. z = Inr ([[y0], [y1]], P) \<and> psd P"
  show ?thesis
  proof (rule fold_permuted_eq [where P = ?good, OF perm])
    show "?good (Inr ([[R], [b]], P0))"
      using P by blast
  next
    fix m z
    assume "?good z"
    then obtain y0 y1 P where "z = Inr ([[y0], [y1]], P)" "psd P" by blast
    with process_good [OF this(2) nv, of m y0 y1]
    show "?good (process nv m z)" by simp
  next
    fix m1 m2 z
    assume "?good z"
    then obtain y0 y1 P where "z = Inr ([[y0], [y1]], P)" "psd P" by blast
    with process_commute [OF this(2) nv, of m1 m2 y0 y1]
    show "process nv m1 (process nv m2 z) = process nv m2 (process nv m1 z)" by simp
  qed
qed

text \<open>
  Claim C5. From the same prior (a positive semi-definite covariance) and with a
  positive noise variance, the recursive cell run on a measurement sequence and on any
  permutation of it completes in both cases and ends with the same estimate \<^verbatim>\<open>x_k\<close> (and
  the same covariance \<^verbatim>\<open>P_k\<close>), in exact arithmetic. The currents are an n x 1 column and
  the voltages an n x 1 column, as in the data cell, permuted together.
\<close>

theorem final_estimate_is_order_independent:
  assumes "psd P0" and "0 < nv"
    and "length vs = length cs" and "length vs' = length cs'"
    and "mset (zip cs vs) = mset (zip cs' vs')"
  shows "\<exists>s s'.
     estimator [[R], [b]] P0 [[nv]] (Arr2 (map (\<lambda>i. [i]) cs)) (map (\<lambda>v. [v]) vs) = Inr s \<and>
     estimator [[R], [b]] P0 [[nv]] (Arr2 (map (\<lambda>i. [i]) cs')) (map (\<lambda>v. [v]) vs') = Inr s' \<and>
     x_k s' = x_k s \<and> P_k s' = P_k s"
proof -
  from estimator_fold [OF assms(1,2,3), of R b] obtain s where
    s: "estimator [[R], [b]] P0 [[nv]] (Arr2 (map (\<lambda>i. [i]) cs)) (map (\<lambda>v. [v]) vs) = Inr s"
       "Inr (x_k s, P_k s) = fold (process nv) (zip cs vs) (Inr ([[R], [b]], P0))"
    by blast
  from estimator_fold [OF assms(1,2,4), of R b] obtain s' where
    s': "estimator [[R], [b]] P0 [[nv]] (Arr2 (map (\<lambda>i. [i]) cs')) (map (\<lambda>v. [v]) vs') = Inr s'"
        "Inr (x_k s', P_k s') = fold (process nv) (zip cs' vs') (Inr ([[R], [b]], P0))"
    by blast
  from fold_process_permuted [OF assms(1,2,5), of R b] s(2) s'(2)
  have "(Inr (x_k s', P_k s') :: error + mat \<times> mat) = Inr (x_k s, P_k s)" by simp
  then have "x_k s' = x_k s \<and> P_k s' = P_k s" by simp
  with s(1) s'(1) show ?thesis by blast
qed

lemma estimator_data_reversed:
  "estimator [[4], [0]] [[9, 0], [0, 1/5]] [[9/400]]
      (Arr2 (map (\<lambda>i. [i]) [3/5, 1/2, 2/5, 3/10, 1/5])) (map (\<lambda>v. [v]) ([317/100, 247/100, 206/100, 138/100, 123/100] :: real list)) =
     Inr \<lparr>I = Arr1 [3/5, 1/2, 2/5, 3/10, 1/5],
          x_k = [[488958/98245], [6844/98245]],
          P_k = [[3681/19649, - (1440/19649)], [- (1440/19649), 3249/98245]],
          x_hist = [[4, 0],
                    [36016/6925, 308/6925],
                    [23682/4475, - (384/4475)],
                    [43186/8235, - (88/1647)],
                    [54058/9825, - (656/3275)],
                    [488958/98245, 6844/98245]],
          P_hist = [[[9, 0], [0, 1/5]],
                    [[801/1385, - (432/1385)], [- (432/1385), 261/1385]],
                    [[507/895, - (264/895)], [- (264/895), 147/895]],
                    [[83/183, - (40/183)], [- (40/183), 103/915]],
                    [[987/3275, - (432/3275)], [- (432/3275), 207/3275]],
                    [[3681/19649, - (1440/19649)], [- (1440/19649), 3249/98245]]]\<rparr>"
proof -
  have n: "shape0 (Arr2 (map (\<lambda>i. [i]) [3/5, 1/2, 2/5, 3/10, 1/5])) = 5"
    by (simp add: shape0_def)
  show ?thesis
    unfolding estimator_def n upt_5
    by (simp add: prepare_def body_def Let_def
      reshape1_def H_k_new_def item_def row_def shape0_def ravel_def K_k_new_2 innov_def
      x_k_new_2 P_k_new_2 reshape_2_def reshape_2_2_def numeral_eq_Suc)
qed

lemma estimator_data_forward:
  "\<exists>s. estimator [[4], [0]] [[9, 0], [0, 1/5]] [[9/400]]
      (Arr2 (map (\<lambda>i. [i]) [1/5, 3/10, 2/5, 1/2, 3/5])) (map (\<lambda>v. [v]) ([123/100, 138/100, 206/100, 247/100, 317/100] :: real list)) = Inr s \<and>
      x_k s = [[488958/98245], [6844/98245]] \<and> x_hist s ! 1 = [6208/1165, 172/1165]"
  using estimator_data
  by (simp add: x_0_def P_0_def R_noise_def I_data_def V_data_def)

theorem final_estimate_is_order_independent_witness:
  "psd [[9, 0], [0, 1/5]] \<and> (0::real) < 9/400 \<and>
   length ([123/100, 138/100, 206/100, 247/100, 317/100] :: real list) = length [1/5, 3/10, 2/5, 1/2, 3/5] \<and>
   length ([317/100, 247/100, 206/100, 138/100, 123/100] :: real list) = length [3/5, 1/2, 2/5, 3/10, 1/5] \<and>
   mset (zip [1/5, 3/10, 2/5, 1/2, 3/5] ([123/100, 138/100, 206/100, 247/100, 317/100] :: real list)) = mset (zip [3/5, 1/2, 2/5, 3/10, 1/5] ([317/100, 247/100, 206/100, 138/100, 123/100] :: real list)) \<and>
   (\<exists>s s'.
     estimator [[4], [0]] [[9, 0], [0, 1/5]] [[9/400]]
       (Arr2 (map (\<lambda>i. [i]) [1/5, 3/10, 2/5, 1/2, 3/5])) (map (\<lambda>v. [v]) ([123/100, 138/100, 206/100, 247/100, 317/100] :: real list)) = Inr s \<and>
     estimator [[4], [0]] [[9, 0], [0, 1/5]] [[9/400]]
       (Arr2 (map (\<lambda>i. [i]) [3/5, 1/2, 2/5, 3/10, 1/5])) (map (\<lambda>v. [v]) ([317/100, 247/100, 206/100, 138/100, 123/100] :: real list)) = Inr s' \<and>
     x_k s' = x_k s \<and> P_k s' = P_k s \<and>
     x_k s = [[488958/98245], [6844/98245]] \<and>
     x_hist s ! 1 = [6208/1165, 172/1165] \<and> x_hist s' ! 1 = [36016/6925, 308/6925])"
proof -
  have 1: "psd [[9, 0], [0, 1/5]]" by (simp add: psd_2)
  have 2: "(0::real) < 9/400" by simp
  have 3: "length ([123/100, 138/100, 206/100, 247/100, 317/100] :: real list) = length [1/5, 3/10, 2/5, 1/2, 3/5]" by simp
  have 4: "length ([317/100, 247/100, 206/100, 138/100, 123/100] :: real list) = length [3/5, 1/2, 2/5, 3/10, 1/5]" by simp
  have 5: "mset (zip [1/5, 3/10, 2/5, 1/2, 3/5] ([123/100, 138/100, 206/100, 247/100, 317/100] :: real list)) = mset (zip [3/5, 1/2, 2/5, 3/10, 1/5] ([317/100, 247/100, 206/100, 138/100, 123/100] :: real list))" by simp
  from final_estimate_is_order_independent [OF 1 2 3 4 5, of 4 0] obtain s s' where
    s: "estimator [[4], [0]] [[9, 0], [0, 1/5]] [[9/400]]
       (Arr2 (map (\<lambda>i. [i]) [1/5, 3/10, 2/5, 1/2, 3/5])) (map (\<lambda>v. [v]) ([123/100, 138/100, 206/100, 247/100, 317/100] :: real list)) = Inr s"
    and s': "estimator [[4], [0]] [[9, 0], [0, 1/5]] [[9/400]]
       (Arr2 (map (\<lambda>i. [i]) [3/5, 1/2, 2/5, 3/10, 1/5])) (map (\<lambda>v. [v]) ([317/100, 247/100, 206/100, 138/100, 123/100] :: real list)) = Inr s'"
    and e: "x_k s' = x_k s" "P_k s' = P_k s"
    by blast
  from estimator_data_forward s
  have f: "x_k s = [[488958/98245], [6844/98245]]" "x_hist s ! 1 = [6208/1165, 172/1165]"
    by auto
  from estimator_data_reversed s' have r: "x_hist s' ! 1 = [36016/6925, 308/6925]"
    by auto
  from 1 2 3 4 5 s s' e f r show ?thesis by blast
qed

end
